theory Spec2Isabelle
  imports Main "HOL-Library.Word"
begin

unbundle bit_operations_syntax

section \<open>Values, errors and the struct primitives\<close>

text \<open>
  A Python \<open>bytes\<close> object is a list of 8-bit words. A Python \<open>str\<close> is a HOL string,
  read as the UTF-8 text of the Python string: equality, concatenation, splitting and
  replacing at ASCII separators and stripping NUL characters act on it as they do on the
  code points. Every exception the modelled code can raise is a value of \<open>error\<close>; a
  function that can raise returns \<open>error + 'a\<close> with the exception on the left.
\<close>

type_synonym byte = "8 word"

datatype error =
    IndexError
  | StructError
  | ValueError
  | TypeError
  | AttributeError
  | UnicodeError
  | BinasciiError
  | UnboundLocalError
  | OSError

datatype endian = LE | BE

text \<open>Sequencing of calls that may raise: the first exception ends the computation.\<close>

definition bindE :: "error + 'a \<Rightarrow> ('a \<Rightarrow> error + 'b) \<Rightarrow> error + 'b" where
  "bindE m f = (case m of Inl e \<Rightarrow> Inl e | Inr v \<Rightarrow> f v)"

text \<open>
  \<open>struct.unpack\<close> and \<open>struct.pack\<close> with the formats \<open><i\<close> and \<open>>i\<close>: four bytes, least
  significant first for the former and most significant first for the latter, read as a
  two's complement number. \<open>unpack\<close> wants
  exactly four bytes, \<open>unpack_from\<close> at least four after the offset.
\<close>

definition be_word :: "byte list \<Rightarrow> 32 word" where
  "be_word bs = foldl (\<lambda>w b. push_bit 8 w OR ucast b) 0 bs"

definition word_be :: "32 word \<Rightarrow> byte list" where
  "word_be w = [ucast (drop_bit 24 w), ucast (drop_bit 16 w), ucast (drop_bit 8 w), ucast w]"

definition in_order :: "endian \<Rightarrow> byte list \<Rightarrow> byte list" where
  "in_order e bs = (case e of LE \<Rightarrow> rev bs | BE \<Rightarrow> bs)"

definition unpack_i :: "endian \<Rightarrow> byte list \<Rightarrow> error + int" where
  "unpack_i e bs =
     (if length bs = 4 then Inr (sint (be_word (in_order e bs))) else Inl StructError)"

definition unpack_from_i :: "endian \<Rightarrow> byte list \<Rightarrow> nat \<Rightarrow> error + int" where
  "unpack_from_i e buf off =
     (if off + 4 \<le> length buf then unpack_i e (take 4 (drop off buf)) else Inl StructError)"

definition pack_i :: "endian \<Rightarrow> int \<Rightarrow> error + byte list" where
  "pack_i e n =
     (if - (2 ^ 31) \<le> n \<and> n < 2 ^ 31 then Inr (in_order e (word_be (word_of_int n)))
      else Inl StructError)"

definition bytesAsLEInt :: "byte list \<Rightarrow> error + int" where
  "bytesAsLEInt buf = unpack_from_i LE buf 0"

definition bytesAsBEInt :: "byte list \<Rightarrow> error + int" where
  "bytesAsBEInt buf = unpack_from_i BE buf 0"

section \<open>Hex display codec\<close>

text \<open>
  \<open>hex(byte)[2:].zfill(2).upper()\<close> is the two upper-case hexadecimal digits of a byte.
\<close>

definition hexdigit :: "nat \<Rightarrow> char" where
  "hexdigit n = ''0123456789ABCDEF'' ! n"

definition hex2 :: "byte \<Rightarrow> string" where
  "hex2 b = [hexdigit (unat b div 16), hexdigit (unat b mod 16)]"

definition bytesAsBEHex :: "byte list \<Rightarrow> string" where
  "bytesAsBEHex buf = butlast (foldl (\<lambda>s b. s @ hex2 b @ ''-'') ''0x'' buf)"

definition bytesAsLEHex :: "byte list \<Rightarrow> string" where
  "bytesAsLEHex buf = butlast (foldl (\<lambda>s b. s @ hex2 b @ ''-'') ''0x'' (rev buf))"

text \<open>
  \<open>str.replace(old, new)\<close>: every non-overlapping occurrence of \<open>old\<close>, leftmost first.
  For an empty \<open>old\<close> Python puts \<open>new\<close> before every character and at the end.
\<close>

function replace_str :: "string \<Rightarrow> string \<Rightarrow> string \<Rightarrow> string" where
  "replace_str old new s =
     (if old = [] then new @ concat (map (\<lambda>c. c # new) s)
      else if s = [] then []
      else if take (length old) s = old then new @ replace_str old new (drop (length old) s)
      else hd s # replace_str old new (tl s))"
  by pat_completeness auto
termination
  by (relation "measure (\<lambda>(old, new, s). length s)") auto

declare replace_str.simps [simp del]

text \<open>\<open>codecs.decode(b, "hex")\<close>: pairs of hexadecimal digits of either case.\<close>

definition hexval :: "char \<Rightarrow> nat option" where
  "hexval c =
     (let n = of_char c :: nat in
      if 48 \<le> n \<and> n \<le> 57 then Some (n - 48)
      else if 65 \<le> n \<and> n \<le> 70 then Some (n - 55)
      else if 97 \<le> n \<and> n \<le> 102 then Some (n - 87)
      else None)"

fun unhexlify :: "string \<Rightarrow> error + byte list" where
  "unhexlify [] = Inr []"
| "unhexlify [c] = Inl BinasciiError"
| "unhexlify (c # d # cs) =
     (case (hexval c, hexval d) of
        (Some h, Some l) \<Rightarrow> bindE (unhexlify cs) (\<lambda>bs. Inr (word_of_nat (16 * h + l) # bs))
      | _ \<Rightarrow> Inl BinasciiError)"

definition leHexAsBytes :: "string \<Rightarrow> error + byte list" where
  "leHexAsBytes obj =
     bindE (unhexlify (replace_str ''0x'' '''' (replace_str ''-'' '''' obj)))
       (\<lambda>raw. bindE (unpack_i LE raw) (pack_i LE))"

definition beHexAsBytes :: "string \<Rightarrow> error + byte list" where
  "beHexAsBytes obj =
     bindE (unhexlify (replace_str ''0x'' '''' (replace_str ''-'' '''' obj)))
       (\<lambda>raw. bindE (unpack_i BE raw) (pack_i BE))"

section \<open>Files\<close>

text \<open>
  A binary file object is its content and the current position. \<open>seek\<close> refuses a
  negative position and accepts one past the end; \<open>read(n)\<close> returns the bytes that are
  there, fewer than \<open>n\<close> at the end of the file and all the rest for a negative \<open>n\<close>.
\<close>

record pyfile =
  fdata :: "byte list"
  fpos :: nat

definition f_seek :: "int \<Rightarrow> pyfile \<Rightarrow> error + pyfile" where
  "f_seek n f = (if n < 0 then Inl OSError else Inr (f\<lparr>fpos := nat n\<rparr>))"

definition f_read :: "int \<Rightarrow> pyfile \<Rightarrow> byte list \<times> pyfile" where
  "f_read n f =
     (let rest = drop (fpos f) (fdata f);
          got = (if n < 0 then rest else take (nat n) rest)
      in (got, f\<lparr>fpos := fpos f + length got\<rparr>))"

definition f_tell :: "pyfile \<Rightarrow> int" where
  "f_tell f = int (fpos f)"

text \<open>
  The text codec (\<open>shift_jisx0213\<close> in the program) belongs to the Python library: the
  model takes its decoder as a parameter, \<open>Inl UnicodeError\<close> where it raises.
\<close>

type_synonym decoder = "byte list \<Rightarrow> error + string"

definition rstrip_nul :: "string \<Rightarrow> string" where
  "rstrip_nul s = rev (dropWhile (\<lambda>c. c = CHR 0x00) (rev s))"

definition bytesAsString :: "decoder \<Rightarrow> byte list \<Rightarrow> error + string" where
  "bytesAsString dec buf = bindE (dec buf) (\<lambda>s. Inr (rstrip_nul s))"

text \<open>Python list indexing: a negative index counts from the end.\<close>

definition py_index :: "nat \<Rightarrow> int \<Rightarrow> nat option" where
  "py_index n i =
     (if 0 \<le> i \<and> i < int n then Some (nat i)
      else if i < 0 \<and> - int n \<le> i then Some (nat (int n + i))
      else None)"

section \<open>XLB container\<close>

text \<open>
  A slot of a section is \<open>[id, '']\<close> after the header phase; the payload phase replaces
  the empty string by the payload bytes.
\<close>

datatype payload = PStr string | PBytes "byte list"

record xlb_section =
  recordSize :: int
  recordCount :: int
  descrLen :: int
  descr :: string
  records :: "(int \<times> payload) list"

datatype xlb_log = ExpectedCHNK int

fun read_skeleton ::
  "nat \<Rightarrow> int \<Rightarrow> pyfile \<Rightarrow> (int \<times> payload) list \<Rightarrow> error + ((int \<times> payload) list \<times> pyfile)" where
  "read_skeleton 0 rsize f recs = Inr (recs, f)"
| "read_skeleton (Suc n) rsize f recs =
     (let (b, f1) = f_read 4 f in
      bindE (bytesAsLEInt b) (\<lambda>ident.
      bindE (f_seek (f_tell f1 + (rsize - 4)) f1) (\<lambda>f2.
      read_skeleton n rsize f2 (recs @ [(ident, PStr '''')]))))"

fun read_sections ::
  "decoder \<Rightarrow> nat \<Rightarrow> pyfile \<Rightarrow> xlb_section list \<Rightarrow> error + (xlb_section list \<times> pyfile)" where
  "read_sections dec 0 f secs = Inr (secs, f)"
| "read_sections dec (Suc n) f secs =
     (let (b1, f1) = f_read 4 f in
      bindE (bytesAsLEInt b1) (\<lambda>rsize.
      let (b2, f2) = f_read 4 f1 in
      bindE (bytesAsLEInt b2) (\<lambda>rcount.
      let (b3, f3) = f_read 4 f2 in
      bindE (bytesAsLEInt b3) (\<lambda>dlen.
      let (b4, f4) = f_read dlen f3 in
      bindE (dec b4) (\<lambda>d.
      bindE (read_skeleton (nat rcount) rsize f4 []) (\<lambda>(recs, f5).
      read_sections dec n f5
        (secs @ [\<lparr>recordSize = rsize, recordCount = rcount, descrLen = dlen,
                   descr = d, records = recs\<rparr>])))))))"

text \<open>
  The placement state is the section \<open>currHeader\<close> and the slot \<open>currRec\<close>. The literal
  key pairs are the program's table of boundary exceptions, applied in its order.
\<close>

definition crutches :: "int \<Rightarrow> int \<Rightarrow> int \<Rightarrow> int" where
  "crutches prev_id2 rec_id2 currRec =
     (let r1 = (if rec_id2 = 108184 \<and> prev_id2 = 108120 then 0 else currRec);
          r2 = (if rec_id2 = 157496 \<and> prev_id2 = 157368 then 0 else r1);
          r3 = (if rec_id2 = 160312 \<and> prev_id2 = 160248 then 0 else r2);
          r4 = (if rec_id2 = 177416 \<and> prev_id2 = 175880 then 1 else r3);
          r5 = (if rec_id2 = 174456 \<and> prev_id2 = 172856 then 0 else r4)
      in r5)"

function skip_empty :: "xlb_section list \<Rightarrow> nat \<Rightarrow> int \<Rightarrow> error + (nat \<times> int)" where
  "skip_empty secs currHeader currRec =
     (if currHeader < length secs then
        (if currRec > recordCount (secs ! currHeader)
         then skip_empty secs (currHeader + 1)
                (currRec - (recordCount (secs ! currHeader) - 1) - 3)
         else Inr (currHeader, currRec))
      else Inl IndexError)"
  by pat_completeness auto
termination
  by (relation "measure (\<lambda>(secs, h, r). length secs - h)") auto

declare skip_empty.simps [simp del]

definition place_first :: "int \<Rightarrow> nat \<times> int" where
  "place_first rec_id2 = (0, 0 + (rec_id2 - 48) div 16)"

definition place_next ::
  "xlb_section list \<Rightarrow> nat \<times> int \<Rightarrow> int \<Rightarrow> int \<Rightarrow> error + (nat \<times> int)" where
  "place_next secs st prev_id2 rec_id2 =
     (let (currHeader, currRec) = st;
          add = (rec_id2 - prev_id2) div 16
      in if currHeader < length secs then
           (if currRec + add < recordCount (secs ! currHeader)
            then Inr (currHeader, currRec + add)
            else let empty_old = recordCount (secs ! currHeader) - 1 - currRec
                 in skip_empty secs (currHeader + 1)
                      (crutches prev_id2 rec_id2 (add - empty_old - 3)))
         else Inl IndexError)"

definition store_payload ::
  "xlb_section list \<Rightarrow> nat \<times> int \<Rightarrow> byte list \<Rightarrow> error + xlb_section list" where
  "store_payload secs st rec_bytes =
     (let (currHeader, currRec) = st in
      if currHeader < length secs then
        (let recs = records (secs ! currHeader) in
         case py_index (length recs) currRec of
           None \<Rightarrow> Inl IndexError
         | Some j \<Rightarrow>
             Inr (secs[currHeader := (secs ! currHeader)
                    \<lparr>records := recs[j := (fst (recs ! j), PBytes rec_bytes)]\<rparr>]))
      else Inl IndexError)"

definition read_record :: "pyfile \<Rightarrow> error + ((int \<times> byte list) \<times> pyfile)" where
  "read_record f =
     (let (b1, f1) = f_read 4 f in
      bindE (bytesAsLEInt b1) (\<lambda>rec_id2.
      let (b2, f2) = f_read 4 f1 in
      bindE (bytesAsLEInt b2) (\<lambda>rec_size.
      let (rec_bytes, f3) = f_read rec_size f2 in
      Inr ((rec_id2, rec_bytes), f3))))"

text \<open>The loop \<open>while i < recordCount\<close>, with the number of records still to read.\<close>

fun place_records ::
  "nat \<Rightarrow> pyfile \<Rightarrow> xlb_section list \<Rightarrow> nat \<times> int \<Rightarrow> int \<Rightarrow> error + xlb_section list" where
  "place_records 0 f secs st prev_id2 = Inr secs"
| "place_records (Suc n) f secs st prev_id2 =
     bindE (read_record f) (\<lambda>((rec_id2, rec_bytes), f1).
     bindE (place_next secs st prev_id2 rec_id2) (\<lambda>st1.
     bindE (store_payload secs st1 rec_bytes) (\<lambda>secs1.
     place_records n f1 secs1 st1 rec_id2)))"

text \<open>The header phase: the section count, then every section with its skeleton rows.\<close>

definition xlb_header :: "decoder \<Rightarrow> byte list \<Rightarrow> error + (xlb_section list \<times> pyfile)" where
  "xlb_header dec content =
     (let f = \<lparr>fdata = content, fpos = 0\<rparr> in
      bindE (f_seek 4 f) (\<lambda>f1.
      let (b, f2) = f_read 4 f1 in
      bindE (bytesAsLEInt b) (\<lambda>typeCount.
      bindE (f_seek 16 f2) (\<lambda>f3.
      read_sections dec (nat typeCount) f3 []))))"

definition readXLB :: "decoder \<Rightarrow> byte list \<Rightarrow> error + (xlb_log list \<times> xlb_section list)" where
  "readXLB dec content =
     bindE (xlb_header dec content) (\<lambda>(secs, f4).
     let (m, f5) = f_read 4 f4 in
     bindE (bytesAsString dec m) (\<lambda>chnkhead.
     if chnkhead \<noteq> ''CHNK'' then Inr ([ExpectedCHNK (f_tell f5 - 4)], secs)
     else
       let (c, f6) = f_read 4 f5 in
       bindE (bytesAsLEInt c) (\<lambda>rcount.
       bindE (read_record f6) (\<lambda>((rec_id2, rec_bytes), f7).
       let st = place_first rec_id2 in
       bindE (store_payload secs st rec_bytes) (\<lambda>secs1.
       bindE (place_records (nat (rcount - 1)) f7 secs1 st rec_id2) (\<lambda>secs2.
       Inr ([], secs2)))))))"






text \<open>
  The codec on the bytes used in the examples: \<open>shift_jisx0213\<close> decodes a byte below
  \<open>0x80\<close> other than \<open>0x5C\<close> and \<open>0x7E\<close> to the ASCII character of that code. The bytes
  whose decoding depends on the JIS X 0213 tables are not decoded here.
\<close>

definition ascii_decode :: decoder where
  "ascii_decode buf =
     (if list_all (\<lambda>b. unat b < 128 \<and> b \<noteq> 0x5C \<and> b \<noteq> 0x7E) buf
      then Inr (map (\<lambda>b. char_of (unat b)) buf) else Inl UnicodeError)"

section \<open>XLB: observations and example data\<close>



text \<open>Example data: a number as four little-endian bytes, and two container files.\<close>

definition le4 :: "int \<Rightarrow> byte list" where
  "le4 n = in_order LE (word_be (word_of_int n))"




section \<open>Python library functions used by the MXE code\<close>

text \<open>
  The text codec and the conversions between four bytes, an IEEE float rounded to two
  decimals and its text belong to the Python library, as does \<open>str\<close> of a bytes object
  (\<open>bytes_repr\<close>). The model takes them as parameters: \<open>float_text e buf\<close> is \<open>str(round(struct.unpack_from(e + "f", buf, 0)[0], 2))\<close>
  and \<open>float_bytes e s\<close> is \<open>struct.pack(e + "f", float(s))\<close>.
\<close>

record pylib =
  decode :: "byte list \<Rightarrow> error + string"
  encode :: "string \<Rightarrow> error + byte list"
  bytes_repr :: "byte list \<Rightarrow> string"
  float_text :: "endian \<Rightarrow> byte list \<Rightarrow> error + string"
  float_bytes :: "endian \<Rightarrow> string \<Rightarrow> error + byte list"

text \<open>
  \<open>struct.unpack_from\<close> and \<open>struct.pack\<close> with the formats \<open>h\<close> (two bytes) and \<open>b\<close>
  (one byte), both signed.
\<close>

definition be_word16 :: "byte list \<Rightarrow> 16 word" where
  "be_word16 bs = foldl (\<lambda>w b. push_bit 8 w OR ucast b) 0 bs"

definition word16_be :: "16 word \<Rightarrow> byte list" where
  "word16_be w = [ucast (drop_bit 8 w), ucast w]"

definition unpack_from_h :: "endian \<Rightarrow> byte list \<Rightarrow> nat \<Rightarrow> error + int" where
  "unpack_from_h e buf off =
     (if off + 2 \<le> length buf then Inr (sint (be_word16 (in_order e (take 2 (drop off buf)))))
      else Inl StructError)"

definition pack_h :: "endian \<Rightarrow> int \<Rightarrow> error + byte list" where
  "pack_h e n =
     (if - (2 ^ 15) \<le> n \<and> n < 2 ^ 15 then Inr (in_order e (word16_be (word_of_int n)))
      else Inl StructError)"

definition unpack_from_b :: "byte list \<Rightarrow> nat \<Rightarrow> error + int" where
  "unpack_from_b buf off =
     (if off + 1 \<le> length buf then Inr (sint (buf ! off)) else Inl StructError)"

definition pack_b :: "int \<Rightarrow> error + byte list" where
  "pack_b n =
     (if - (2 ^ 7) \<le> n \<and> n < 2 ^ 7 then Inr [word_of_int n] else Inl StructError)"

text \<open>
  \<open>str(n)\<close> of an integer, and \<open>int(s)\<close> of a text: surrounding white space, an optional
  sign, and decimal digits in which single underscores may separate digits. The digits
  and white space outside ASCII that Python also accepts are not modelled.
\<close>

function str_nat :: "nat \<Rightarrow> string" where
  "str_nat n =
     (if n < 10 then [char_of (48 + n)]
      else str_nat (n div 10) @ [char_of (48 + n mod 10)])"
  by pat_completeness auto
termination
  by (relation "measure id") auto

declare str_nat.simps [simp del]

definition str_int :: "int \<Rightarrow> string" where
  "str_int n = (if n < 0 then CHR ''-'' # str_nat (nat (- n)) else str_nat (nat n))"

definition is_space :: "char \<Rightarrow> bool" where
  "is_space c = (c \<in> set [CHR '' '', CHR 0x09, CHR 0x0A, CHR 0x0B, CHR 0x0C, CHR 0x0D])"

definition is_digit :: "char \<Rightarrow> bool" where
  "is_digit c = (48 \<le> (of_char c :: nat) \<and> (of_char c :: nat) \<le> 57)"

definition strip :: "string \<Rightarrow> string" where
  "strip s = rev (dropWhile is_space (rev (dropWhile is_space s)))"

fun parse_digits :: "nat \<Rightarrow> bool \<Rightarrow> string \<Rightarrow> nat option" where
  "parse_digits acc after_digit [] = (if after_digit then Some acc else None)"
| "parse_digits acc after_digit (c # cs) =
     (if is_digit c then parse_digits (10 * acc + (of_char c - 48)) True cs
      else if c = CHR ''_'' \<and> after_digit \<and> cs \<noteq> [] \<and> is_digit (hd cs)
      then parse_digits acc False cs
      else None)"

definition py_int :: "string \<Rightarrow> error + int" where
  "py_int s =
     (let t = strip s;
          (neg, ds) = (case t of
                         c # cs \<Rightarrow> if c = CHR ''-'' then (True, cs)
                                   else if c = CHR ''+'' then (False, cs) else (False, t)
                       | [] \<Rightarrow> (False, t))
      in case parse_digits 0 False ds of
           None \<Rightarrow> Inl ValueError
         | Some n \<Rightarrow> Inr (if neg then - int n else int n))"

section \<open>Data types and converters\<close>

definition DataTypes :: "string \<Rightarrow> nat option" where
  "DataTypes = map_of
     [(''<i'', 4), (''<i2'', 2), (''<f'', 4), (''<h'', 4),
      (''>i'', 4), (''>i2'', 2), (''>f'', 4), (''>h'', 4),
      (''i1'', 1),
      (''<ip'', 4), (''<pi'', 4), (''<p'', 4),
      (''>ip'', 4), (''>pi'', 4), (''>p'', 4)]"

text \<open>
  A stored field value: the bytes read from the file, the pair of raw address bytes and
  resolved value of a resolved pointer, or \<open>None\<close> (what \<open>objToBytes\<close> returns for a type
  without a converter). The resolved value of a classic pointer is a text, that of an
  XLB pointer the bytes of the id.
\<close>

datatype resolved = RStr string | RBytes "byte list"

datatype field = FBytes "byte list" | FPair "byte list" resolved | FNone

text \<open>
  \<open>bytesToText(data, dataType)\<close> as the text the CSV writer puts in the cell: \<open>str\<close> of a
  number, the text itself, and the empty cell for \<open>None\<close>. Every converter raises on a
  value that is not bytes.
\<close>

definition ConvertFunctions :: "pylib \<Rightarrow> string \<Rightarrow> (byte list \<Rightarrow> error + string) option" where
  "ConvertFunctions lib = map_of
     [(''<i'', \<lambda>buf. bindE (unpack_from_i LE buf 0) (\<lambda>n. Inr (str_int n))),
      (''<i2'', \<lambda>buf. bindE (unpack_from_h LE buf 0) (\<lambda>n. Inr (str_int n))),
      (''<f'', float_text lib LE),
      (''<h'', \<lambda>buf. Inr (bytesAsLEHex buf)),
      (''>i'', \<lambda>buf. bindE (unpack_from_i BE buf 0) (\<lambda>n. Inr (str_int n))),
      (''>i2'', \<lambda>buf. bindE (unpack_from_h BE buf 0) (\<lambda>n. Inr (str_int n))),
      (''>f'', float_text lib BE),
      (''>h'', \<lambda>buf. Inr (bytesAsBEHex buf)),
      (''i1'', \<lambda>buf. bindE (unpack_from_b buf 0) (\<lambda>n. Inr (str_int n))),
      (''<ip'', \<lambda>buf. bindE (bytesAsLEInt buf) (\<lambda>n. Inr (str_int n))),
      (''<pi'', \<lambda>buf. bindE (bytesAsLEInt buf) (\<lambda>n. Inr (str_int n))),
      (''<p'', \<lambda>buf. bindE (bytesAsLEInt buf) (\<lambda>n. Inr (str_int n))),
      (''>ip'', \<lambda>buf. bindE (bytesAsBEInt buf) (\<lambda>n. Inr (str_int n))),
      (''>pi'', \<lambda>buf. bindE (bytesAsBEInt buf) (\<lambda>n. Inr (str_int n))),
      (''>p'', \<lambda>buf. bindE (bytesAsBEInt buf) (\<lambda>n. Inr (str_int n))),
      (''s'', bytesAsString (decode lib))]"

definition bytesToText :: "pylib \<Rightarrow> field \<Rightarrow> string \<Rightarrow> error + string" where
  "bytesToText lib data dataType =
     (case ConvertFunctions lib dataType of
        None \<Rightarrow> Inr ''''
      | Some func \<Rightarrow>
          (case data of
             FBytes buf \<Rightarrow> func buf
           | FPair raw v \<Rightarrow> if dataType = ''s'' then Inl AttributeError else Inl TypeError
           | FNone \<Rightarrow> if dataType = ''s'' then Inl AttributeError else Inl TypeError))"

text \<open>\<open>objToBytes(obj, dataType)\<close> for a CSV cell; \<open>None\<close> for a type without a converter.\<close>

definition ConvertBackFunctions :: "pylib \<Rightarrow> string \<Rightarrow> (string \<Rightarrow> error + byte list) option" where
  "ConvertBackFunctions lib = map_of
     [(''<i'', \<lambda>obj. bindE (py_int obj) (pack_i LE)),
      (''<i2'', \<lambda>obj. bindE (py_int obj) (pack_h LE)),
      (''<f'', float_bytes lib LE),
      (''<h'', leHexAsBytes),
      (''>i'', \<lambda>obj. bindE (py_int obj) (pack_i BE)),
      (''>i2'', \<lambda>obj. bindE (py_int obj) (pack_h BE)),
      (''>f'', float_bytes lib BE),
      (''>h'', beHexAsBytes),
      (''i1'', \<lambda>obj. bindE (py_int obj) pack_b),
      (''<ip'', \<lambda>obj. bindE (py_int obj) (pack_i LE)),
      (''<pi'', \<lambda>obj. bindE (py_int obj) (pack_i LE)),
      (''<p'', \<lambda>obj. bindE (py_int obj) (pack_i LE)),
      (''>ip'', \<lambda>obj. bindE (py_int obj) (pack_i BE)),
      (''>pi'', \<lambda>obj. bindE (py_int obj) (pack_i BE)),
      (''>p'', \<lambda>obj. bindE (py_int obj) (pack_i BE)),
      (''s'', encode lib)]"

definition objToBytes :: "pylib \<Rightarrow> string \<Rightarrow> string \<Rightarrow> error + field" where
  "objToBytes lib obj dataType =
     (case ConvertBackFunctions lib dataType of
        None \<Rightarrow> Inr FNone
      | Some func \<Rightarrow> bindE (func obj) (\<lambda>b. Inr (FBytes b)))"

section \<open>Templates and the main table\<close>

text \<open>
  A template is its name and its fields, each a data type and a field name. A TOC entry
  is \<open>[id, type, [type string address, type string], record address, record data]\<close>.
\<close>

type_synonym template = "string \<times> (string \<times> string) list"

record toc_entry =
  toc_field_id :: int
  toc_field_type :: int
  toc_type_string_addr :: int
  toc_type_string :: string
  record_address :: int
  record_data :: "field list"

record mxe_settings =
  MAIN_TABLE_COUNT_ADDR :: nat
  MAIN_TABLE_STARTADDR_ADDR :: nat
  TOC_ENTRY_SIZE :: nat
  TOC_ENDIANNESS :: endian
  TOC_FIELD_ID :: nat
  TOC_FIELD_TYPE :: nat
  TOC_FIELD_TYPENAME_ADDR :: nat
  TOC_FIELD_RECORD_ADDR :: nat
  RESOLVE_CLASSIC_POINTERS :: bool
  RESOLVE_XLB_POINTERS :: bool
  RESOLVE_XLB_STRINGS :: bool

definition MXE_SETTINGS :: mxe_settings where
  "MXE_SETTINGS =
     \<lparr>MAIN_TABLE_COUNT_ADDR = 0xC8, MAIN_TABLE_STARTADDR_ADDR = 0xE0, TOC_ENTRY_SIZE = 32,
      TOC_ENDIANNESS = LE, TOC_FIELD_ID = 0, TOC_FIELD_TYPE = 4,
      TOC_FIELD_TYPENAME_ADDR = 8, TOC_FIELD_RECORD_ADDR = 16,
      RESOLVE_CLASSIC_POINTERS = True, RESOLVE_XLB_POINTERS = True,
      RESOLVE_XLB_STRINGS = True\<rparr>"

record output_modifiers =
  FORCE_HEX_OUTPUT :: bool
  FORCE_RAW_CLASSIC_POINTERS :: bool
  FORCE_RAW_XLB_POINTERS :: bool
  FORCE_XLB_IDS :: bool

definition OUTPUT_MODIFIERS :: output_modifiers where
  "OUTPUT_MODIFIERS =
     \<lparr>FORCE_HEX_OUTPUT = False, FORCE_RAW_CLASSIC_POINTERS = False,
      FORCE_RAW_XLB_POINTERS = False, FORCE_XLB_IDS = False\<rparr>"

text \<open>
  The default of the parameter \<open>offset\<close> is evaluated when the function is defined, so
  every call with one argument adds \<open>0x40\<close>.
\<close>

definition followAddress :: "int \<Rightarrow> int" where
  "followAddress raw_address = raw_address + 0x40"

text \<open>\<open>entry[2][1].split(':')[0]\<close>: the type string up to its first colon.\<close>

definition template_key :: "string \<Rightarrow> string" where
  "template_key s = takeWhile (\<lambda>c. c \<noteq> CHR '':'') s"

text \<open>\<open>[s for s in templates if s[0] == name][0]\<close>, an \<open>IndexError\<close> when there is none.\<close>

definition find_template :: "template list \<Rightarrow> string \<Rightarrow> error + template" where
  "find_template templates name =
     (case filter (\<lambda>s. fst s = name) templates of
        [] \<Rightarrow> Inl IndexError
      | t # _ \<Rightarrow> Inr t)"

section \<open>Reading the main table\<close>

text \<open>
  A computation that may raise and may also not return has a result of type
  \<open>(error + 'a) option\<close>: \<open>None\<close> when it runs forever.
\<close>

definition bindD ::
  "(error + 'a) option \<Rightarrow> ('a \<Rightarrow> (error + 'b) option) \<Rightarrow> (error + 'b) option" where
  "bindD m g = (case m of None \<Rightarrow> None | Some (Inl e) \<Rightarrow> Some (Inl e) | Some (Inr v) \<Rightarrow> g v)"

definition bindDE ::
  "error + 'a \<Rightarrow> ('a \<Rightarrow> (error + 'b) option) \<Rightarrow> (error + 'b) option" where
  "bindDE m g = (case m of Inl e \<Rightarrow> Some (Inl e) | Inr v \<Rightarrow> g v)"

text \<open>
  The loop of \<open>readZeroDelBytes\<close>: one byte at a time until a zero byte. At the end of the
  file \<open>read(1)\<close> returns no byte, which is not the zero byte, so the loop goes on.
\<close>

partial_function (option) read_until_zero ::
  "pyfile \<Rightarrow> byte list \<Rightarrow> (byte list \<times> pyfile) option" where
  "read_until_zero f barr =
     (case f_read 1 f of
        (c, f1) \<Rightarrow> if c \<noteq> [0] then read_until_zero f1 (barr @ c) else Some (barr, f1))"

declare read_until_zero.simps [code]

definition readZeroDelBytes ::
  "pyfile \<Rightarrow> int \<Rightarrow> int \<Rightarrow> (error + (byte list \<times> pyfile)) option" where
  "readZeroDelBytes f startpos backseek =
     bindDE (f_seek startpos f) (\<lambda>f1.
     case read_until_zero f1 [] of
       None \<Rightarrow> None
     | Some (barr, f2) \<Rightarrow>
         if backseek > 0 then bindDE (f_seek backseek f2) (\<lambda>f3. Some (Inr (barr, f3)))
         else Some (Inr (barr, f2)))"

definition readStr ::
  "pylib \<Rightarrow> pyfile \<Rightarrow> int \<Rightarrow> int \<Rightarrow> (error + (string \<times> pyfile)) option" where
  "readStr lib f startpos backseek =
     bindD (readZeroDelBytes f startpos backseek) (\<lambda>(bytearr, f1).
     bindDE (decode lib bytearr) (\<lambda>s. Some (Inr (s, f1))))"

text \<open>
  Step 1: the table of contents, \<open>entry_count\<close> entries from the current position. One
  entry is read from the file, its type string followed and the position restored.
\<close>

definition read_toc_entry ::
  "pylib \<Rightarrow> mxe_settings \<Rightarrow> pyfile \<Rightarrow> (error + (toc_entry \<times> pyfile)) option" where
  "read_toc_entry lib st f =
     (case f_read (int (TOC_ENTRY_SIZE st)) f of (buf, f1) \<Rightarrow>
      bindDE (unpack_from_i (TOC_ENDIANNESS st) buf (TOC_FIELD_TYPENAME_ADDR st)) (\<lambda>a1.
      bindDE (unpack_from_i (TOC_ENDIANNESS st) buf (TOC_FIELD_ID st)) (\<lambda>ident.
      bindDE (unpack_from_i (TOC_ENDIANNESS st) buf (TOC_FIELD_TYPE st)) (\<lambda>ty.
      bindD (readStr lib f1 (followAddress a1) (f_tell f1)) (\<lambda>(name, f2).
      bindDE (unpack_from_i (TOC_ENDIANNESS st) buf (TOC_FIELD_RECORD_ADDR st)) (\<lambda>raddr.
      Some (Inr (\<lparr>toc_field_id = ident, toc_field_type = ty, toc_type_string_addr = a1,
                   toc_type_string = name, record_address = raddr, record_data = []\<rparr>,
                 f2))))))))"

fun read_toc ::
  "pylib \<Rightarrow> mxe_settings \<Rightarrow> nat \<Rightarrow> pyfile \<Rightarrow> toc_entry list \<Rightarrow>
   (error + (toc_entry list \<times> pyfile)) option" where
  "read_toc lib st 0 f main_table = Some (Inr (main_table, f))"
| "read_toc lib st (Suc n) f main_table =
     bindD (read_toc_entry lib st f) (\<lambda>(entry, f2).
     read_toc lib st n f2 (main_table @ [entry]))"

text \<open>
  Step 2, one template field: the values appended to the record data (none for a data
  type that is not in \<open>DataTypes\<close>) and the file afterwards. The two pointer tests of the
  program exclude each other, so the flag \<open>done\<close> is a chain of alternatives here.
\<close>

definition read_field ::
  "pylib \<Rightarrow> mxe_settings \<Rightarrow> string \<Rightarrow> pyfile \<Rightarrow> (error + (field list \<times> pyfile)) option" where
  "read_field lib st dt f =
     (case DataTypes dt of
        None \<Rightarrow> Some (Inr ([], f))
      | Some w \<Rightarrow>
          if (dt = ''<p'' \<or> dt = ''>p'') \<and> RESOLVE_CLASSIC_POINTERS st then
            (case f_read (int w) f of (raw_addr, f1) \<Rightarrow>
             bindDE (if dt = ''<p'' then bytesAsLEInt raw_addr else bytesAsBEInt raw_addr)
               (\<lambda>int_addr.
             bindD (readStr lib f1 (followAddress int_addr) (f_tell f1)) (\<lambda>(val, f2).
             Some (Inr ([FPair raw_addr (RStr val)], f2)))))
          else if (dt = ''<pi'' \<or> dt = ''>pi'') \<and> RESOLVE_XLB_POINTERS st then
            (case f_read (int w) f of (raw_addr, f1) \<Rightarrow>
             bindDE (if dt = ''<pi'' then bytesAsLEInt raw_addr else bytesAsBEInt raw_addr)
               (\<lambda>int_addr.
             bindD (readZeroDelBytes f1 (followAddress int_addr) (f_tell f1)) (\<lambda>(val, f2).
             Some (Inr ([FPair raw_addr (RBytes val)], f2)))))
          else
            (case f_read (int w) f of (b, f1) \<Rightarrow> Some (Inr ([FBytes b], f1))))"

fun read_fields ::
  "pylib \<Rightarrow> mxe_settings \<Rightarrow> (string \<times> string) list \<Rightarrow> pyfile \<Rightarrow> field list \<Rightarrow>
   (error + (field list \<times> pyfile)) option" where
  "read_fields lib st [] f data = Some (Inr (data, f))"
| "read_fields lib st ((dt, name) # ts) f data =
     bindD (read_field lib st dt f) (\<lambda>(vs, f1). read_fields lib st ts f1 (data @ vs))"

text \<open>
  One entry of step 2. The \<open>IndexError\<close> of the template lookup is caught and the entry
  is left as it is; every other exception leaves the function.
\<close>

definition read_entry ::
  "pylib \<Rightarrow> mxe_settings \<Rightarrow> template list \<Rightarrow> toc_entry \<Rightarrow> pyfile \<Rightarrow>
   (error + (toc_entry \<times> pyfile)) option" where
  "read_entry lib st templates entry f =
     (case find_template templates (template_key (toc_type_string entry)) of
        Inl e \<Rightarrow> Some (Inr (entry, f))
      | Inr template \<Rightarrow>
          bindDE (f_seek (followAddress (record_address entry)) f) (\<lambda>f1.
          bindD (read_fields lib st (snd template) f1 (record_data entry)) (\<lambda>(data, f2).
          Some (Inr (entry\<lparr>record_data := data\<rparr>, f2)))))"

fun read_entries ::
  "pylib \<Rightarrow> mxe_settings \<Rightarrow> template list \<Rightarrow> toc_entry list \<Rightarrow> pyfile \<Rightarrow>
   (error + toc_entry list) option" where
  "read_entries lib st templates [] f = Some (Inr [])"
| "read_entries lib st templates (entry # es) f =
     bindD (read_entry lib st templates entry f) (\<lambda>(entry1, f1).
     bindD (read_entries lib st templates es f1) (\<lambda>es1. Some (Inr (entry1 # es1))))"

text \<open>The stored entry count and the position of the table of contents.\<close>

definition mxe_toc_start :: "mxe_settings \<Rightarrow> byte list \<Rightarrow> error + (int \<times> pyfile)" where
  "mxe_toc_start st content =
     (let f = \<lparr>fdata = content, fpos = 0\<rparr> in
      bindE (f_seek (int (MAIN_TABLE_COUNT_ADDR st)) f) (\<lambda>f1.
      case f_read 4 f1 of (raw, f2) \<Rightarrow>
      bindE (unpack_from_i LE raw 0) (\<lambda>entry_count.
      bindE (f_seek (int (MAIN_TABLE_STARTADDR_ADDR st)) f2) (\<lambda>f3.
      case f_read 4 f3 of (raw2, f4) \<Rightarrow>
      bindE (unpack_from_i LE raw2 0) (\<lambda>entry_start.
      bindE (f_seek (followAddress entry_start) f4) (\<lambda>f5.
      Inr (entry_count, f5)))))))"

definition readMXEFile ::
  "pylib \<Rightarrow> byte list \<Rightarrow> template list \<Rightarrow> mxe_settings \<Rightarrow> (error + toc_entry list) option" where
  "readMXEFile lib content templates st =
     bindDE (mxe_toc_start st content) (\<lambda>(entry_count, f).
     bindD (read_toc lib st (nat entry_count) f []) (\<lambda>(main_table, f1).
     read_entries lib st templates main_table f1))"

section \<open>Writing the main table back\<close>

text \<open>
  \<open>write\<close> on a file opened with \<open>r+b\<close>: the bytes replace what is at the position and
  extend the file when they go past its end; the gap after a seek past the end is
  filled with zero bytes. Writing no bytes changes nothing.
\<close>

definition f_write :: "byte list \<Rightarrow> pyfile \<Rightarrow> pyfile" where
  "f_write bs f =
     (if bs = [] then f
      else f\<lparr>fdata := take (fpos f) (fdata f) @ replicate (fpos f - length (fdata f)) 0
                        @ bs @ drop (fpos f + length bs) (fdata f),
              fpos := fpos f + length bs\<rparr>)"

text \<open>
  \<open>entry[4][i]\<close>, then \<open>bytearray(x[0])\<close> for a pointer field and \<open>bytearray(x)\<close> for the
  others. The first item of a pair is its raw address; the first item of a bytes object
  is a number \<open>n\<close>, and \<open>bytearray(n)\<close> is \<open>n\<close> zero bytes.
\<close>

definition nth_err :: "'a list \<Rightarrow> nat \<Rightarrow> error + 'a" where
  "nth_err xs i = (if i < length xs then Inr (xs ! i) else Inl IndexError)"

definition bytearray_of_first :: "field \<Rightarrow> error + byte list" where
  "bytearray_of_first x =
     (case x of
        FPair raw v \<Rightarrow> Inr raw
      | FBytes b \<Rightarrow> (case b of [] \<Rightarrow> Inl IndexError | c # _ \<Rightarrow> Inr (replicate (unat c) 0))
      | FNone \<Rightarrow> Inl TypeError)"

definition bytearray_of :: "field \<Rightarrow> error + byte list" where
  "bytearray_of x =
     (case x of
        FBytes b \<Rightarrow> Inr b
      | FPair raw v \<Rightarrow> Inl TypeError
      | FNone \<Rightarrow> Inl TypeError)"

text \<open>
  The state of a write: the file and the trace of the debug log, one item
  (entry number, field number, bytes) for every \<open>f.write\<close>.
\<close>

record write_state =
  wfile :: pyfile
  wlog :: "(nat \<times> nat \<times> byte list) list"

definition do_write :: "nat \<Rightarrow> nat \<Rightarrow> byte list \<Rightarrow> write_state \<Rightarrow> write_state" where
  "do_write n i bs ws = \<lparr>wfile = f_write bs (wfile ws), wlog = wlog ws @ [(n, i, bs)]\<rparr>"

text \<open>The bytes one template field writes: none for a data type not in \<open>DataTypes\<close>.\<close>

definition field_bytes_to_write ::
  "mxe_settings \<Rightarrow> string \<Rightarrow> field list \<Rightarrow> nat \<Rightarrow> error + byte list option" where
  "field_bytes_to_write st dt data i =
     (case DataTypes dt of
        None \<Rightarrow> Inr None
      | Some w \<Rightarrow>
          if (dt = ''<p'' \<or> dt = ''>p'') \<and> RESOLVE_CLASSIC_POINTERS st then
            bindE (nth_err data i) (\<lambda>x. bindE (bytearray_of_first x) (\<lambda>bs. Inr (Some bs)))
          else if (dt = ''<pi'' \<or> dt = ''>pi'') \<and> RESOLVE_XLB_POINTERS st then
            bindE (nth_err data i) (\<lambda>x. bindE (bytearray_of_first x) (\<lambda>bs. Inr (Some bs)))
          else
            bindE (nth_err data i) (\<lambda>x. bindE (bytearray_of x) (\<lambda>bs. Inr (Some bs))))"

text \<open>
  The loop over the template fields of entry \<open>n\<close>, from field number \<open>i\<close>. The result is
  the exception that ended the loop, if any, and the state reached.
\<close>

fun write_fields ::
  "mxe_settings \<Rightarrow> nat \<Rightarrow> (string \<times> string) list \<Rightarrow> field list \<Rightarrow> nat \<Rightarrow> write_state \<Rightarrow>
   error option \<times> write_state" where
  "write_fields st n [] data i ws = (None, ws)"
| "write_fields st n ((dt, name) # ts) data i ws =
     (case field_bytes_to_write st dt data i of
        Inl e \<Rightarrow> (Some e, ws)
      | Inr None \<Rightarrow> write_fields st n ts data (i + 1) ws
      | Inr (Some bs) \<Rightarrow> write_fields st n ts data (i + 1) (do_write n i bs ws))"

text \<open>
  One entry: an \<open>IndexError\<close>, from the template lookup or from the fields, is caught and
  ends the entry; any other exception ends the write.
\<close>

definition write_entry ::
  "mxe_settings \<Rightarrow> template list \<Rightarrow> nat \<Rightarrow> toc_entry \<Rightarrow> write_state \<Rightarrow>
   error option \<times> write_state" where
  "write_entry st templates n entry ws =
     (case find_template templates (template_key (toc_type_string entry)) of
        Inl e \<Rightarrow> (None, ws)
      | Inr template \<Rightarrow>
          (case f_seek (followAddress (record_address entry)) (wfile ws) of
             Inl e \<Rightarrow> (Some e, ws)
           | Inr f1 \<Rightarrow>
               (case write_fields st n (snd template) (record_data entry) 0 (ws\<lparr>wfile := f1\<rparr>) of
                  (Some e, ws1) \<Rightarrow> if e = IndexError then (None, ws1) else (Some e, ws1)
                | (None, ws1) \<Rightarrow> (None, ws1))))"

fun write_entries ::
  "mxe_settings \<Rightarrow> template list \<Rightarrow> nat \<Rightarrow> toc_entry list \<Rightarrow> write_state \<Rightarrow>
   error option \<times> write_state" where
  "write_entries st templates n [] ws = (None, ws)"
| "write_entries st templates n (entry # es) ws =
     (case write_entry st templates n entry ws of
        (Some e, ws1) \<Rightarrow> (Some e, ws1)
      | (None, ws1) \<Rightarrow> write_entries st templates (n + 1) es ws1)"

text \<open>
  \<open>writeMXEFile\<close> on the content of the target file: the exception that ended it, if
  any, the content of the file afterwards and the trace of the writes. The backup copy
  is not part of the model; when it fails the program returns before it opens the file.
\<close>

definition writeMXEFile ::
  "byte list \<Rightarrow> toc_entry list \<Rightarrow> template list \<Rightarrow> mxe_settings \<Rightarrow>
   error option \<times> byte list \<times> (nat \<times> nat \<times> byte list) list" where
  "writeMXEFile content main_table templates st =
     (case write_entries st templates 0 main_table
             \<lparr>wfile = \<lparr>fdata = content, fpos = 0\<rparr>, wlog = []\<rparr> of
        (err, ws) \<Rightarrow> (err, fdata (wfile ws), wlog ws))"

section \<open>Applying a CSV file to the main table\<close>

text \<open>
  What \<open>csv.reader\<close> yields: every row with the value of \<open>reader.line_num\<close> after it was
  read, the number of lines of the file read so far.
\<close>

type_synonym csv = "(nat \<times> string list) list"

text \<open>\<open>tuple(x.split(':', 1)) if ":" in x else (x, '')\<close>.\<close>

definition split_colon :: "string \<Rightarrow> string \<times> string" where
  "split_colon x =
     (if CHR '':'' \<in> set x
      then (takeWhile (\<lambda>c. c \<noteq> CHR '':'') x, tl (dropWhile (\<lambda>c. c \<noteq> CHR '':'') x))
      else (x, ''''))"

definition is_pointer_dt :: "string \<Rightarrow> bool" where
  "is_pointer_dt dt =
     (dt = ''<p'' \<or> dt = ''>p'' \<or> dt = ''<pi'' \<or> dt = ''>pi'' \<or> dt = ''<ip'' \<or> dt = ''>ip'')"

datatype csv_log =
    BadHeader
  | NotFound string
  | Mismatched string string string
  | PointerSkipped string nat
  | Changing string nat field field
  | MoreFields string nat

text \<open>
  The variables of the loop over the rows. \<open>entry\<close> is the index of the main table entry
  whose record data the variable refers to, \<open>None\<close> before the first assignment;
  \<open>template\<close> is \<open>None\<close> for the initial empty list.
\<close>

record import_state =
  header_row :: "(string \<times> string) list"
  template :: "template option"
  entry :: "nat option"
  main_table :: "toc_entry list"
  log :: "csv_log list"

text \<open>
  The body of the loop over the template fields for field number \<open>i\<close>. An \<open>IndexError\<close>
  in it is caught and logged; any other exception leaves the function.
\<close>

definition apply_field ::
  "pylib \<Rightarrow> string list \<Rightarrow> string \<Rightarrow> nat \<Rightarrow> import_state \<Rightarrow> error + import_state" where
  "apply_field lib row dt i s =
     (let name = (case template s of Some t \<Rightarrow> fst t | None \<Rightarrow> '''');
          caught = Inr (s\<lparr>log := log s @ [MoreFields name i]\<rparr>)
      in case nth_err (header_row s) i of
           Inl e \<Rightarrow> caught
         | Inr h \<Rightarrow>
             if fst h \<noteq> dt then Inr (s\<lparr>log := log s @ [Mismatched (hd row) dt (fst h)]\<rparr>)
             else if is_pointer_dt dt then Inr (s\<lparr>log := log s @ [PointerSkipped (hd row) i]\<rparr>)
             else
               (case nth_err row (2 + i) of
                  Inl e \<Rightarrow> caught
                | Inr cell \<Rightarrow>
                    bindE (objToBytes lib cell dt) (\<lambda>b.
                    case entry s of
                      None \<Rightarrow> Inl UnboundLocalError
                    | Some k \<Rightarrow>
                        (case nth_err (record_data (main_table s ! k)) i of
                           Inl e \<Rightarrow> caught
                         | Inr old \<Rightarrow>
                             if old \<noteq> b
                             then Inr (s\<lparr>main_table := (main_table s)
                                          [k := (main_table s ! k)
                                             \<lparr>record_data := (record_data (main_table s ! k))[i := b]\<rparr>],
                                        log := log s @ [Changing (hd row) i old b]\<rparr>)
                             else Inr s))))"

fun apply_fields ::
  "pylib \<Rightarrow> string list \<Rightarrow> (string \<times> string) list \<Rightarrow> nat \<Rightarrow> import_state \<Rightarrow>
   error + import_state" where
  "apply_fields lib row [] i s = Inr s"
| "apply_fields lib row ((dt, name) # ts) i s =
     bindE (apply_field lib row dt i s) (\<lambda>s1. apply_fields lib row ts (i + 1) s1)"

text \<open>
  A data row: the template is looked up on line 2 only; the entry is looked up by the
  number in the first cell, and an \<open>IndexError\<close> there is logged, after which the loop
  over the fields runs all the same.
\<close>

definition apply_data_row ::
  "pylib \<Rightarrow> template list \<Rightarrow> nat \<Rightarrow> string list \<Rightarrow> import_state \<Rightarrow> error + import_state" where
  "apply_data_row lib templates line_num row s =
     bindE (if line_num = 2
            then bindE (nth_err row 1) (\<lambda>c.
                 bindE (find_template templates (template_key c)) (\<lambda>t.
                 Inr (s\<lparr>template := Some t\<rparr>)))
            else Inr s) (\<lambda>s1.
     bindE (nth_err row 0) (\<lambda>c0.
     bindE (py_int c0) (\<lambda>idx.
     let s2 = (case py_index (length (main_table s1)) idx of
                 None \<Rightarrow> s1\<lparr>log := log s1 @ [NotFound c0]\<rparr>
               | Some k \<Rightarrow> s1\<lparr>entry := Some k\<rparr>)
     in case template s2 of
          None \<Rightarrow> Inl IndexError
        | Some t \<Rightarrow> apply_fields lib row (snd t) 0 s2)))"

text \<open>
  The loop over the rows. A first line whose first two cells are not \<open>RecordId\<close> and
  \<open>InternalName\<close> ends the function at once; its message prints both cells, so both
  are needed.
\<close>

fun apply_rows ::
  "pylib \<Rightarrow> template list \<Rightarrow> csv \<Rightarrow> import_state \<Rightarrow> error + import_state" where
  "apply_rows lib templates [] s = Inr s"
| "apply_rows lib templates ((line_num, row) # rows) s =
     (if line_num = 1 then
        bindE (nth_err row 0) (\<lambda>c0.
        bindE (nth_err row 1) (\<lambda>c1.
        if c0 \<noteq> ''RecordId'' \<or> c1 \<noteq> ''InternalName''
        then Inr (s\<lparr>log := log s @ [BadHeader]\<rparr>)
        else apply_rows lib templates rows (s\<lparr>header_row := map split_colon (drop 2 row)\<rparr>)))
      else
        bindE (apply_data_row lib templates line_num row s)
          (\<lambda>s1. apply_rows lib templates rows s1))"

text \<open>
  \<open>applyCSVtoMXE\<close>: the messages printed and the main table after the call. The table is
  changed in place, so it is the result also when the function returns at the header.
\<close>

definition applyCSVtoMXE ::
  "pylib \<Rightarrow> toc_entry list \<Rightarrow> template list \<Rightarrow> csv \<Rightarrow> error + (csv_log list \<times> toc_entry list)" where
  "applyCSVtoMXE lib table templates rows =
     bindE (apply_rows lib templates rows
              \<lparr>header_row = [], template = None, entry = None, main_table = table, log = []\<rparr>)
       (\<lambda>s. Inr (log s, main_table s))"

section \<open>Writing the main table to CSV\<close>

text \<open>\<open>findByIDInXLB\<close>: the payload of the first slot with the id, \<open>None\<close> without one.\<close>

definition findByIDInXLB :: "xlb_section list \<Rightarrow> int \<Rightarrow> payload option" where
  "findByIDInXLB data ident =
     (case filter (\<lambda>slot. fst slot = ident) (concat (map records data)) of
        [] \<Rightarrow> None
      | slot # _ \<Rightarrow> Some (snd slot))"

text \<open>
  The values \<open>data[1]\<close> can have: the resolved value of a pair, or the second byte of a
  bytes object as a number.
\<close>

datatype pyval = VInt int | VStr string | VBytes "byte list"

definition second_item :: "field \<Rightarrow> error + pyval" where
  "second_item data =
     (case data of
        FPair raw (RStr s) \<Rightarrow> Inr (VStr s)
      | FPair raw (RBytes b) \<Rightarrow> Inr (VBytes b)
      | FBytes b \<Rightarrow> if 1 < length b then Inr (VInt (uint (b ! 1))) else Inl IndexError
      | FNone \<Rightarrow> Inl TypeError)"

definition first_item :: "field \<Rightarrow> error + field" where
  "first_item data =
     (case data of
        FPair raw v \<Rightarrow> Inr (FBytes raw)
      | FBytes b \<Rightarrow> if 0 < length b then Inl TypeError else Inl IndexError
      | FNone \<Rightarrow> Inl TypeError)"

text \<open>The text of a value in a CSV cell, \<open>int(v)\<close>, and \<open>bytesToText(v, "s")\<close>.\<close>

definition cell_of :: "pylib \<Rightarrow> pyval \<Rightarrow> string" where
  "cell_of lib v = (case v of VInt n \<Rightarrow> str_int n | VStr s \<Rightarrow> s | VBytes b \<Rightarrow> bytes_repr lib b)"

definition int_of_pyval :: "pyval \<Rightarrow> error + int" where
  "int_of_pyval v =
     (case v of
        VInt n \<Rightarrow> Inr n
      | VStr s \<Rightarrow> py_int s
      | VBytes b \<Rightarrow> py_int (map (\<lambda>c. char_of (unat c)) b))"

definition text_of_pyval :: "pylib \<Rightarrow> pyval \<Rightarrow> error + string" where
  "text_of_pyval lib v =
     (case v of
        VBytes b \<Rightarrow> bytesAsString (decode lib) b
      | VStr s \<Rightarrow> Inl AttributeError
      | VInt n \<Rightarrow> Inl AttributeError)"

definition text_of_payload :: "pylib \<Rightarrow> payload \<Rightarrow> error + string" where
  "text_of_payload lib p =
     (case p of PBytes b \<Rightarrow> bytesAsString (decode lib) b | PStr s \<Rightarrow> Inl AttributeError)"

text \<open>The three characters that replace a line feed in an exported text.\<close>

definition LF_marker :: string where
  "LF_marker = [CHR 0x5C, CHR ''L'', CHR ''F'']"

text \<open>The exceptions that \<open>except ValueError\<close> catches.\<close>

definition is_ValueError :: "error \<Rightarrow> bool" where
  "is_ValueError e = (e = ValueError \<or> e = UnicodeError \<or> e = BinasciiError)"

text \<open>
  \<open>bytesAsBEHex(data)\<close> on a stored value: the loop over a pair or over \<open>None\<close> raises a
  \<open>TypeError\<close>, the first item of a pair being a bytes object and not a number.
\<close>

definition hex_of_field :: "field \<Rightarrow> error + string" where
  "hex_of_field data =
     (case data of
        FBytes b \<Rightarrow> Inr (bytesAsBEHex b)
      | FPair raw v \<Rightarrow> Inl TypeError
      | FNone \<Rightarrow> Inl TypeError)"

text \<open>The cell of the XLB pointer whose id is looked up in the container.\<close>

definition xlb_text_cell :: "pylib \<Rightarrow> xlb_section list \<Rightarrow> field \<Rightarrow> error + string" where
  "xlb_text_cell lib xlb_list data =
     bindE (second_item data) (\<lambda>v.
     if v \<noteq> VBytes [] then
       (let attempt =
              bindE (int_of_pyval v) (\<lambda>a.
              case findByIDInXLB xlb_list a of
                None \<Rightarrow> Inr ''''
              | Some res \<Rightarrow>
                  if res \<noteq> PStr '''' then
                    bindE (text_of_payload lib res) (\<lambda>t. Inr (replace_str [CHR 0x0A] LF_marker t))
                  else Inr '''')
        in case attempt of
             Inl e \<Rightarrow>
               if is_ValueError e
               then bindE (text_of_pyval lib v) (\<lambda>t. Inr (replace_str [CHR 0x0A] LF_marker t))
               else Inl e
           | Inr c \<Rightarrow> Inr c)
     else Inr '''')"

text \<open>
  The cell of one stored value, \<open>dt\<close> being the data type of the template field with the
  number of the value. Without forced hex output a classic pointer and an XLB pointer
  have their own rules, in this order, and everything else goes through \<open>bytesToText\<close>.
\<close>

definition render_field ::
  "pylib \<Rightarrow> mxe_settings \<Rightarrow> output_modifiers \<Rightarrow> xlb_section list \<Rightarrow> (string \<times> string) list \<Rightarrow>
   nat \<Rightarrow> field \<Rightarrow> error + string" where
  "render_field lib st om xlb_list tfields i data =
     (if FORCE_HEX_OUTPUT om then hex_of_field data
      else
        bindE (nth_err tfields i) (\<lambda>tf.
        let dt = fst tf in
        if dt = ''<p'' \<or> dt = ''>p'' then
          (if FORCE_RAW_CLASSIC_POINTERS om then bytesToText lib data dt
           else if \<not> RESOLVE_CLASSIC_POINTERS st then bytesToText lib data dt
           else bindE (second_item data) (\<lambda>v. Inr (cell_of lib v)))
        else if dt = ''<pi'' \<or> dt = ''>pi'' then
          (if FORCE_RAW_XLB_POINTERS om then
             (if \<not> RESOLVE_XLB_POINTERS st then bytesToText lib data dt
              else bindE (first_item data) (\<lambda>raw. bytesToText lib raw dt))
           else if \<not> RESOLVE_XLB_POINTERS st then bytesToText lib data dt
           else if RESOLVE_XLB_STRINGS st then
             (if FORCE_XLB_IDS om then bytesToText lib data dt
              else xlb_text_cell lib xlb_list data)
           else bindE (second_item data) (\<lambda>v.
                bindE (text_of_pyval lib v) (\<lambda>t. Inr (replace_str [CHR 0x0A] LF_marker t))))
        else bytesToText lib data dt))"

fun render_fields ::
  "pylib \<Rightarrow> mxe_settings \<Rightarrow> output_modifiers \<Rightarrow> xlb_section list \<Rightarrow> (string \<times> string) list \<Rightarrow>
   nat \<Rightarrow> field list \<Rightarrow> error + string list" where
  "render_fields lib st om xlb_list tfields i [] = Inr []"
| "render_fields lib st om xlb_list tfields i (data # ds) =
     bindE (render_field lib st om xlb_list tfields i data) (\<lambda>c.
     bindE (render_fields lib st om xlb_list tfields (i + 1) ds) (\<lambda>cs. Inr (c # cs)))"

definition header_cells :: "(string \<times> string) list \<Rightarrow> string list" where
  "header_cells tfields =
     ''RecordId'' # ''InternalName'' #
     map (\<lambda>t. if snd t = '''' then fst t else fst t @ '':'' @ snd t) tfields"

fun entry_rows ::
  "pylib \<Rightarrow> mxe_settings \<Rightarrow> output_modifiers \<Rightarrow> xlb_section list \<Rightarrow> template \<Rightarrow>
   toc_entry list \<Rightarrow> error + string list list" where
  "entry_rows lib st om xlb_list t [] = Inr []"
| "entry_rows lib st om xlb_list t (e # es) =
     (if template_key (toc_type_string e) = fst t then
        bindE (render_fields lib st om xlb_list (snd t) 0 (record_data e)) (\<lambda>cells.
        bindE (entry_rows lib st om xlb_list t es) (\<lambda>rows.
        Inr ((str_int (toc_field_id e) # toc_type_string e # cells) # rows)))
      else entry_rows lib st om xlb_list t es)"

text \<open>The rows written to the file of one template name: the header, then the entries.\<close>

definition export_template ::
  "pylib \<Rightarrow> mxe_settings \<Rightarrow> output_modifiers \<Rightarrow> xlb_section list \<Rightarrow> template list \<Rightarrow>
   toc_entry list \<Rightarrow> string \<Rightarrow> error + string list list" where
  "export_template lib st om xlb_list templates table templ_name =
     bindE (find_template templates templ_name) (\<lambda>t.
     bindE (entry_rows lib st om xlb_list t table) (\<lambda>rows.
     Inr (header_cells (snd t) # rows)))"

fun export_all ::
  "pylib \<Rightarrow> mxe_settings \<Rightarrow> output_modifiers \<Rightarrow> xlb_section list \<Rightarrow> template list \<Rightarrow>
   toc_entry list \<Rightarrow> string list \<Rightarrow> error + (string \<times> string list list) list" where
  "export_all lib st om xlb_list templates table [] = Inr []"
| "export_all lib st om xlb_list templates table (n # ns) =
     bindE (export_template lib st om xlb_list templates table n) (\<lambda>rows.
     bindE (export_all lib st om xlb_list templates table ns) (\<lambda>files. Inr ((n, rows) # files)))"

text \<open>
  \<open>writeMXEtoCSV\<close>: the CSV files by template name, each with its rows. The program walks
  a set of the names, whose order Python does not fix; the model takes the order of
  first appearance in the table. The container file is read only when XLB strings are
  resolved.
\<close>

definition writeMXEtoCSV ::
  "pylib \<Rightarrow> toc_entry list \<Rightarrow> template list \<Rightarrow> byte list \<Rightarrow> mxe_settings \<Rightarrow> output_modifiers \<Rightarrow>
   error + (string \<times> string list list) list" where
  "writeMXEtoCSV lib table templates xlb_content st om =
     bindE (if RESOLVE_XLB_STRINGS st
            then bindE (readXLB (decode lib) xlb_content) (\<lambda>(msgs, secs). Inr secs)
            else Inr []) (\<lambda>xlb_list.
     export_all lib st om xlb_list templates table
       (remdups (map (\<lambda>e. template_key (toc_type_string e)) table)))"

text \<open>
  The rows of a written file as \<open>csv.reader\<close> yields them: a line break inside a cell
  makes its row span one more line of the file.
\<close>

fun count_breaks :: "string \<Rightarrow> nat" where
  "count_breaks [] = 0"
| "count_breaks [c] = (if c = CHR 0x0D \<or> c = CHR 0x0A then 1 else 0)"
| "count_breaks (c # d # cs) =
     (if c = CHR 0x0D \<and> d = CHR 0x0A then 1 + count_breaks cs
      else if c = CHR 0x0D \<or> c = CHR 0x0A then 1 + count_breaks (d # cs)
      else count_breaks (d # cs))"

fun number_rows :: "nat \<Rightarrow> string list list \<Rightarrow> csv" where
  "number_rows n [] = []"
| "number_rows n (row # rows) =
     (let m = n + 1 + sum_list (map count_breaks row) in (m, row) # number_rows m rows)"

definition csv_file :: "string list list \<Rightarrow> csv" where
  "csv_file rows = number_rows 0 rows"

section \<open>Example data for the main table\<close>

text \<open>
  The library of the examples. Their texts are ASCII, and they have no float field and
  print no bytes object, so only the decoder and the encoder are ever consulted.
\<close>

definition ascii_encode :: "string \<Rightarrow> error + byte list" where
  "ascii_encode s =
     (if list_all (\<lambda>c. (of_char c :: nat) < 128 \<and> c \<noteq> CHR 0x5C \<and> c \<noteq> CHR 0x7E) s
      then Inr (map (\<lambda>c. word_of_nat (of_char c)) s) else Inl UnicodeError)"

definition example_lib :: pylib where
  "example_lib =
     \<lparr>decode = ascii_decode, encode = ascii_encode, bytes_repr = (\<lambda>b. ''''),
      float_text = (\<lambda>e b. Inl StructError), float_bytes = (\<lambda>e s. Inl ValueError)\<rparr>"

text \<open>
  A file with two entries. Entry 0 has the type string \<open>A:x\<close> and its record, an integer
  5 and a classic pointer to the text \<open>hi\<close>, at offset 328; entry 1 has the type string
  \<open>Z\<close>, for which there is no template.
\<close>

definition example_templates :: "template list" where
  "example_templates =
     [(''A'', [(''<i'', ''n''), (''<p'', ''s'')]), (''C'', [(''<i'', ''a''), (''<i'', ''b'')])]"

definition example_mxe :: "byte list" where
  "example_mxe =
     replicate 200 0 @ le4 2 @ replicate 20 0 @ le4 192 @ replicate 28 0
     @ le4 0 @ le4 7 @ le4 256 @ le4 0 @ le4 264 @ replicate 12 0
     @ le4 1 @ le4 7 @ le4 260 @ le4 0 @ le4 272 @ replicate 12 0
     @ [65, 58, 120, 0] @ [90, 0, 0, 0]
     @ le4 5 @ le4 272
     @ [104, 105, 0]"

text \<open>The main table that \<open>readMXEFile\<close> returns for this file.\<close>

definition example_table :: "toc_entry list" where
  "example_table =
     [\<lparr>toc_field_id = 0, toc_field_type = 7, toc_type_string_addr = 256,
       toc_type_string = ''A:x'', record_address = 264,
       record_data = [FBytes [5, 0, 0, 0], FPair [16, 1, 0, 0] (RStr ''hi'')]\<rparr>,
      \<lparr>toc_field_id = 1, toc_field_type = 7, toc_type_string_addr = 260,
       toc_type_string = ''Z'', record_address = 272, record_data = []\<rparr>]"


definition example_csv_C :: csv where
  "example_csv_C =
     [(1, [''RecordId'', ''InternalName'', ''<i:a'', ''<i:b'']),
      (2, [''0'', ''C'', ''5'', ''9''])]"

text \<open>The table after the import of the file of template \<open>C\<close>, and after that of \<open>A\<close>.\<close>

definition example_table_C :: "toc_entry list" where
  "example_table_C =
     [\<lparr>toc_field_id = 0, toc_field_type = 7, toc_type_string_addr = 256,
       toc_type_string = ''A:x'', record_address = 264,
       record_data = [FBytes [5, 0, 0, 0], FBytes [9, 0, 0, 0]]\<rparr>,
      \<lparr>toc_field_id = 1, toc_field_type = 7, toc_type_string_addr = 260,
       toc_type_string = ''Z'', record_address = 272, record_data = []\<rparr>]"


section \<open>The shape of stored record data\<close>

text \<open>
  A data type whose pointer \<open>readMXEFile\<close> resolves under the settings, and the shape of
  the value it stores for a template field: a pair for a resolved pointer, bytes for
  every other data type of \<open>DataTypes\<close>. Record data is shaped after its template when it
  has one such value for every template field, in order.
\<close>

definition resolves :: "mxe_settings \<Rightarrow> string \<Rightarrow> bool" where
  "resolves st dt =
     (((dt = ''<p'' \<or> dt = ''>p'') \<and> RESOLVE_CLASSIC_POINTERS st)
      \<or> ((dt = ''<pi'' \<or> dt = ''>pi'') \<and> RESOLVE_XLB_POINTERS st))"

definition field_shaped :: "mxe_settings \<Rightarrow> string \<times> string \<Rightarrow> field \<Rightarrow> bool" where
  "field_shaped st tf x =
     (DataTypes (fst tf) \<noteq> None \<and>
      (case x of
         FPair raw v \<Rightarrow> resolves st (fst tf)
       | FBytes b \<Rightarrow> \<not> resolves st (fst tf)
       | FNone \<Rightarrow> False))"

definition shaped :: "mxe_settings \<Rightarrow> (string \<times> string) list \<Rightarrow> field list \<Rightarrow> bool" where
  "shaped st tfields data = list_all2 (field_shaped st) tfields data"

text \<open>A template all of whose data types are in \<open>DataTypes\<close>.\<close>

definition legal :: "(string \<times> string) list \<Rightarrow> bool" where
  "legal tfields = list_all (\<lambda>tf. DataTypes (fst tf) \<noteq> None) tfields"

text \<open>The bytes of a stored value: the raw address of a pair, the bytes themselves.\<close>

definition stored_bytes :: "field \<Rightarrow> byte list" where
  "stored_bytes x = (case x of FPair raw v \<Rightarrow> raw | FBytes b \<Rightarrow> b | FNone \<Rightarrow> [])"

text \<open>
  An entry fits a file when it has no template, or its record data is shaped after its
  template, its record address with the bias is not negative, and its stored bytes are
  none at all or end at or before the end of the file.
\<close>

definition fits :: "byte list \<Rightarrow> mxe_settings \<Rightarrow> template list \<Rightarrow> toc_entry \<Rightarrow> bool" where
  "fits content st templates e =
     (case find_template templates (template_key (toc_type_string e)) of
        Inl err \<Rightarrow> True
      | Inr t \<Rightarrow>
          shaped st (snd t) (record_data e)
          \<and> 0 \<le> followAddress (record_address e)
          \<and> (sum_list (map (\<lambda>x. length (stored_bytes x)) (record_data e)) = 0
               \<or> nat (followAddress (record_address e))
                    + sum_list (map (\<lambda>x. length (stored_bytes x)) (record_data e))
                  \<le> length content))"


text \<open>
  What an import with the template fields \<open>tf\<close> may do to record data: the number of
  values stays, and a value that differs afterwards stands at a position whose data
  type in \<open>tf\<close> is not a pointer type, and is bytes when that data type is in
  \<open>DataTypes\<close>. \<open>import_changes\<close> extends this to a table whose entries keep everything
  but their record data.
\<close>

definition upd_ok :: "(string \<times> string) list \<Rightarrow> field list \<Rightarrow> field list \<Rightarrow> bool" where
  "upd_ok tf d0 d1 =
     (length d1 = length d0 \<and>
      (\<forall>j<length d0. d1 ! j \<noteq> d0 ! j \<longrightarrow>
         j < length tf \<and> \<not> is_pointer_dt (fst (tf ! j)) \<and>
         (DataTypes (fst (tf ! j)) \<noteq> None \<longrightarrow> (\<exists>b. d1 ! j = FBytes b))))"

definition import_changes ::
  "(string \<times> string) list \<Rightarrow> toc_entry list \<Rightarrow> toc_entry list \<Rightarrow> bool" where
  "import_changes tf table0 table1 =
     list_all2 (\<lambda>e0 e1. \<exists>d. e1 = e0\<lparr>record_data := d\<rparr> \<and> upd_ok tf (record_data e0) d)
       table0 table1"


section \<open>Fields that survive export and import\<close>

text \<open>
  A stored value round-trips at field \<open>i\<close> of a template when its exported cell encodes
  back, with the data type of the field, to the value itself.
\<close>

definition roundtrips ::
  "pylib \<Rightarrow> mxe_settings \<Rightarrow> output_modifiers \<Rightarrow> xlb_section list \<Rightarrow> (string \<times> string) list \<Rightarrow>
   nat \<Rightarrow> field \<Rightarrow> bool" where
  "roundtrips lib st om xlb_list tf i x =
     (case render_field lib st om xlb_list tf i x of
        Inl e \<Rightarrow> False
      | Inr cell \<Rightarrow> objToBytes lib cell (fst (tf ! i)) = Inr x)"

text \<open>
  An exported data row of the table: the index of an entry of the template as its
  record id, the type string of the entry and the cells of its record data.
\<close>

definition row_of ::
  "pylib \<Rightarrow> mxe_settings \<Rightarrow> output_modifiers \<Rightarrow> xlb_section list \<Rightarrow> template \<Rightarrow>
   toc_entry list \<Rightarrow> string list \<Rightarrow> bool" where
  "row_of lib st om xlb_list t table0 row =
     (\<exists>k<length table0. \<exists>cells.
        row = str_int (int k) # toc_type_string (table0 ! k) # cells
        \<and> template_key (toc_type_string (table0 ! k)) = fst t
        \<and> render_fields lib st om xlb_list (snd t) 0 (record_data (table0 ! k)) = Inr cells)"

text \<open>
  The invariant of the import of exported rows: every entry keeps everything but its
  record data, which keeps its length and every value that round-trips.
\<close>

definition rt_inv ::
  "pylib \<Rightarrow> mxe_settings \<Rightarrow> output_modifiers \<Rightarrow> xlb_section list \<Rightarrow> template \<Rightarrow>
   toc_entry list \<Rightarrow> toc_entry list \<Rightarrow> bool" where
  "rt_inv lib st om xlb_list t table0 table1 =
     (length table1 = length table0 \<and>
      (\<forall>k<length table0. \<exists>d.
         table1 ! k = (table0 ! k)\<lparr>record_data := d\<rparr>
         \<and> length d = length (record_data (table0 ! k))
         \<and> (\<forall>i<length d.
              roundtrips lib st om xlb_list (snd t) i (record_data (table0 ! k) ! i) \<longrightarrow>
              d ! i = record_data (table0 ! k) ! i)))"

text \<open>The value of a decimal digit.\<close>

definition digit_val :: "char \<Rightarrow> nat" where
  "digit_val c = of_char c - 48"

section \<open>Facts about the primitives\<close>

lemma bindE_Inr [simp]: "bindE (Inr v) f = f v"
  by (simp add: bindE_def)

lemma bindE_Inl [simp]: "bindE (Inl e) f = Inl e"
  by (simp add: bindE_def)


lemma word_be_be_word: "word_be (be_word [a, b, c, d]) = [a, b, c, d]"
  unfolding word_be_def be_word_def
  apply simp
  apply (intro conjI; rule bit_word_eqI; auto simp add: bit_simps dest: bit_imp_le_length)
  done

lemma length_word_be [simp]: "length (word_be w) = 4"
  by (simp add: word_be_def)

lemma length4E:
  assumes "length bs = 4"
  obtains a b c d where "bs = [a, b, c, d]"
proof -
  from assms obtain a b c d where "bs = [a, b, c, d]"
    by (cases bs; simp; cases "tl bs"; simp; cases "tl (tl bs)"; simp; cases "tl (tl (tl bs))"; simp)
  then show ?thesis by (rule that)
qed

lemma pack_unpack_i:
  assumes "length bs = 4"
  shows "bindE (unpack_i e bs) (pack_i e) = Inr bs"
proof -
  from assms obtain a b c d where bs: "bs = [a, b, c, d]" by (rule length4E)
  have rng: "- (2 ^ 31) \<le> sint w \<and> sint w < 2 ^ 31" for w :: "32 word"
    using sint_ge [of w] sint_lt [of w] by simp
  have wb: "word_be (word_of_int (sint w)) = word_be w" for w :: "32 word"
    by simp
  show ?thesis
  proof (cases e)
    case LE
    have "word_be (be_word [d, c, b, a]) = [d, c, b, a]" by (rule word_be_be_word)
    then show ?thesis
      using rng [of "be_word [d, c, b, a]"]
      by (simp add: bs LE unpack_i_def pack_i_def in_order_def wb)
  next
    case BE
    have "word_be (be_word [a, b, c, d]) = [a, b, c, d]" by (rule word_be_be_word)
    then show ?thesis
      using rng [of "be_word [a, b, c, d]"]
      by (simp add: bs BE unpack_i_def pack_i_def in_order_def wb)
  qed
qed

subsection \<open>Hex display round trip\<close>

lemma hexval_hexdigit: "n < 16 \<Longrightarrow> hexval (hexdigit n) = Some n"
proof -
  assume "n < 16"
  then have "n \<in> set [0..<16]" by simp
  then show ?thesis
    by (simp add: upt_rec hexval_def hexdigit_def Let_def) (elim disjE; simp)
qed
lemma hexdigit_not: "n < 16 \<Longrightarrow> hexdigit n \<noteq> CHR ''-'' \<and> hexdigit n \<noteq> CHR ''x''"
proof -
  assume "n < 16"
  then have "n \<in> set [0..<16]" by simp
  then show ?thesis
    by (simp add: upt_rec hexdigit_def) (elim disjE; simp)
qed
lemma byte_nibbles: "word_of_nat (16 * (unat b div 16) + unat b mod 16) = (b::byte)"
  by simp
lemma replace_absent:
  "old \<noteq> [] \<Longrightarrow> last old \<notin> set s \<Longrightarrow> replace_str old new s = s"
proof (induction s)
  case Nil then show ?case by (simp add: replace_str.simps)
next
  case (Cons c s)
  have "take (length old) (c # s) \<noteq> old"
  proof
    assume "take (length old) (c # s) = old"
    then have "set old \<subseteq> set (c # s)" by (metis set_take_subset)
    with Cons.prems show False using last_in_set by blast
  qed
  with Cons show ?case by (subst replace_str.simps) simp
qed

lemma replace_char_filter: "replace_str [c] [] s = filter (\<lambda>x. x \<noteq> c) s"
  by (induction s) (simp_all add: replace_str.simps [of "[c]"])

lemma nib: "unat (b::byte) div 16 < 16" "unat b mod 16 < 16"
  using unsigned_less [of b, where ?'a = nat] by (simp_all add: less_mult_imp_div_less)

lemma hex2_chars: "CHR ''-'' \<notin> set (hex2 b)" "CHR ''x'' \<notin> set (hex2 b)"
  using hexdigit_not [OF nib(1), of b] hexdigit_not [OF nib(2), of b]
  by (auto simp: hex2_def)

lemma unhexlify_hex2: "unhexlify (hex2 b @ cs) = bindE (unhexlify cs) (\<lambda>bs. Inr (b # bs))"
  by (simp add: hex2_def hexval_hexdigit nib)

lemma BEHex4: "bytesAsBEHex [a, b, c, d] = ''0x'' @ hex2 a @ ''-'' @ hex2 b @ ''-'' @ hex2 c @ ''-'' @ hex2 d"
  by (simp add: bytesAsBEHex_def butlast_append hex2_def)

lemma strip_hex4:
  "replace_str ''0x'' '''' (replace_str ''-'' '''' (bytesAsBEHex [a, b, c, d])) = hex2 a @ hex2 b @ hex2 c @ hex2 d"
proof -
  have f: "filter (\<lambda>x. x \<noteq> CHR ''-'') (hex2 v) = hex2 v" for v
    using hex2_chars(1) [of v] by (auto simp: filter_id_conv)
  have 1: "replace_str ''-'' '''' (bytesAsBEHex [a, b, c, d]) = ''0x'' @ (hex2 a @ hex2 b @ hex2 c @ hex2 d)"
    by (simp add: replace_char_filter BEHex4 f)
  have 2: "replace_str ''0x'' '''' (''0x'' @ s) = replace_str ''0x'' '''' s" for s
    by (subst replace_str.simps) simp
  have 3: "replace_str ''0x'' '''' (hex2 a @ hex2 b @ hex2 c @ hex2 d) = hex2 a @ hex2 b @ hex2 c @ hex2 d"
    by (rule replace_absent) (simp_all add: hex2_chars)
  show ?thesis by (simp only: 1 2 3)
qed

lemma unhex4: "unhexlify (hex2 a @ hex2 b @ hex2 c @ hex2 d) = Inr [a, b, c, d]"
  using unhexlify_hex2 [of d "[]"] by (simp add: unhexlify_hex2)

text \<open>
  Claim C10. For every four-byte buffer \<open>b\<close>, encoding the big-endian hex display of \<open>b\<close>
  gives \<open>b\<close> back, while encoding the little-endian hex display of \<open>b\<close> gives \<open>b\<close>
  with its bytes in reverse order, which is \<open>b\<close> itself only when \<open>b\<close> reads the same in
  both directions.
\<close>

theorem hex_roundtrip:
  assumes "length b = 4"
  shows "beHexAsBytes (bytesAsBEHex b) = Inr b
    \<and> leHexAsBytes (bytesAsLEHex b) = Inr (rev b)
    \<and> (leHexAsBytes (bytesAsLEHex b) = Inr b \<longleftrightarrow> rev b = b)"
proof -
  from assms obtain x y z w where b: "b = [x, y, z, w]" by (rule length4E)
  have be: "beHexAsBytes (bytesAsBEHex b) = Inr b"
    using pack_unpack_i [of b BE] assms
    by (simp add: beHexAsBytes_def b strip_hex4 unhex4)
  have rv: "bytesAsLEHex [x, y, z, w] = bytesAsBEHex [w, z, y, x]"
    by (simp add: bytesAsLEHex_def bytesAsBEHex_def)
  have le: "leHexAsBytes (bytesAsLEHex b) = Inr (rev b)"
    using pack_unpack_i [of "[w, z, y, x]" LE]
    by (simp add: leHexAsBytes_def rv b strip_hex4 unhex4)
  from be le show ?thesis by simp
qed

theorem hex_roundtrip_witness:
  "length [1, 2, 171, 255 :: byte] = 4
   \<and> beHexAsBytes (bytesAsBEHex [1, 2, 171, 255]) = Inr [1, 2, 171, 255]
   \<and> leHexAsBytes (bytesAsLEHex [1, 2, 171, 255]) = Inr [255, 171, 2, 1]
   \<and> leHexAsBytes (bytesAsLEHex [1, 2, 171, 255]) \<noteq> Inr [1, 2, 171, 255]"
  using hex_roundtrip [of "[1, 2, 171, 255]"] by simp
section \<open>XLB container: placement and the marker\<close>














section \<open>Reading: the shape of the main table\<close>

lemma bindD_Some_Inr:
  "bindD m g = Some (Inr r) \<longleftrightarrow> (\<exists>v. m = Some (Inr v) \<and> g v = Some (Inr r))"
  by (auto simp: bindD_def split: option.splits sum.splits)

lemma bindDE_Some_Inr:
  "bindDE m g = Some (Inr r) \<longleftrightarrow> (\<exists>v. m = Inr v \<and> g v = Some (Inr r))"
  by (auto simp: bindDE_def split: sum.splits)

lemma f_read_fdata [simp]: "fdata (snd (f_read n f)) = fdata f"
  by (simp add: f_read_def Let_def)

lemma f_seek_Inr: "f_seek n f = Inr f' \<Longrightarrow> fdata f' = fdata f \<and> fpos f' = nat n \<and> 0 \<le> n"
  by (auto simp: f_seek_def split: if_splits)

lemma read_until_zero_fdata:
  assumes "read_until_zero f barr = Some y"
  shows "fdata (snd y) = fdata f"
proof (rule read_until_zero.raw_induct [where P = "\<lambda>f barr y. fdata (snd y) = fdata f", OF _ assms])
  fix ruz :: "pyfile \<Rightarrow> byte list \<Rightarrow> (byte list \<times> pyfile) option" and f barr y
  assume IH: "\<And>f barr y. ruz f barr = Some y \<Longrightarrow> fdata (snd y) = fdata f"
    and eq: "(case f_read 1 f of
                (c, f1) \<Rightarrow> if c \<noteq> [0] then ruz f1 (barr @ c) else Some (barr, f1)) = Some y"
  obtain c f1 where r: "f_read 1 f = (c, f1)" by (cases "f_read 1 f")
  have f1: "fdata f1 = fdata f" using f_read_fdata [of 1 f] r by simp
  show "fdata (snd y) = fdata f"
  proof (cases "c \<noteq> [0]")
    case True
    with eq r have "ruz f1 (barr @ c) = Some y" by simp
    from IH [OF this] f1 show ?thesis by simp
  next
    case False
    with eq r have "y = (barr, f1)" by simp
    with f1 show ?thesis by simp
  qed
qed

lemma readZeroDelBytes_file:
  assumes "readZeroDelBytes f startpos backseek = Some (Inr (b, f'))"
  shows "fdata f' = fdata f \<and> (0 < backseek \<longrightarrow> fpos f' = nat backseek)"
proof -
  from assms obtain f1 where s1: "f_seek startpos f = Inr f1"
    and r: "(case read_until_zero f1 [] of
       None \<Rightarrow> None
     | Some (barr, f2) \<Rightarrow>
         if backseek > 0 then bindDE (f_seek backseek f2) (\<lambda>f3. Some (Inr (barr, f3)))
         else Some (Inr (barr, f2))) = Some (Inr (b, f'))"
    by (cases "f_seek startpos f") (simp_all add: readZeroDelBytes_def bindDE_def)
  from r obtain barr f2 where z: "read_until_zero f1 [] = Some (barr, f2)"
    by (cases "read_until_zero f1 []") auto
  have d: "fdata f2 = fdata f"
    using read_until_zero_fdata [OF z] f_seek_Inr [OF s1] by simp
  show ?thesis
  proof (cases "0 < backseek")
    case True
    with r z obtain f3 where "f_seek backseek f2 = Inr f3" and "f' = f3"
      by (cases "f_seek backseek f2") (simp_all add: bindDE_def)
    with d f_seek_Inr [of backseek f2 f3] True show ?thesis by simp
  next
    case False
    with r z have "f' = f2" by simp
    with d False show ?thesis by simp
  qed
qed

lemma readStr_file:
  assumes "readStr lib f startpos backseek = Some (Inr (s, f'))"
  shows "fdata f' = fdata f \<and> (0 < backseek \<longrightarrow> fpos f' = nat backseek)"
proof -
  from assms obtain b where "readZeroDelBytes f startpos backseek = Some (Inr (b, f'))"
    unfolding readStr_def bindD_Some_Inr by (auto simp: bindDE_Some_Inr)
  then show ?thesis by (rule readZeroDelBytes_file)
qed


lemma unpack_from_i_Inr: "unpack_from_i e buf off = Inr v \<Longrightarrow> off + 4 \<le> length buf"
  by (simp add: unpack_from_i_def split: if_splits)

lemma read_toc_entry_file:
  assumes "read_toc_entry lib st f = Some (Inr (e, f2))"
  shows "fdata f2 = fdata f
    \<and> fpos f2 = fpos f + min (TOC_ENTRY_SIZE st) (length (fdata f) - fpos f)
    \<and> fpos f < length (fdata f) \<and> record_data e = []"
proof -
  obtain buf f1 where r: "f_read (int (TOC_ENTRY_SIZE st)) f = (buf, f1)"
    by (cases "f_read (int (TOC_ENTRY_SIZE st)) f")
  from assms r obtain a1 name where
    u: "unpack_from_i (TOC_ENDIANNESS st) buf (TOC_FIELD_TYPENAME_ADDR st) = Inr a1" and
    rs: "readStr lib f1 (followAddress a1) (f_tell f1) = Some (Inr (name, f2))" and
    rd: "record_data e = []"
    unfolding read_toc_entry_def
    by (auto simp: bindD_Some_Inr bindDE_Some_Inr)
  from unpack_from_i_Inr [OF u] have len: "4 \<le> length buf" by simp
  from r have buf: "buf = take (TOC_ENTRY_SIZE st) (drop (fpos f) (fdata f))"
    and f1: "f1 = f\<lparr>fpos := fpos f + length buf\<rparr>"
    by (auto simp: f_read_def Let_def)
  from len buf have lt: "fpos f < length (fdata f)" by (cases "fpos f < length (fdata f)") auto
  from len f1 have pos: "0 < f_tell f1" by (simp add: f_tell_def)
  from readStr_file [OF rs] pos f1 have "fdata f2 = fdata f" "fpos f2 = fpos f + length buf"
    by (simp_all add: f_tell_def)
  with buf lt rd show ?thesis by (simp add: min.commute)
qed

lemma pyfile_pos_eq:
  "fdata (f2 :: pyfile) = fdata f \<Longrightarrow> f2\<lparr>fpos := p\<rparr> = f\<lparr>fpos := p\<rparr>"
  by (cases f, cases f2) simp

lemma read_toc_shape:
  "read_toc lib st n f tbl = Some (Inr (tbl', f')) \<Longrightarrow>
   \<exists>new. tbl' = tbl @ new \<and> length new = n
     \<and> (\<forall>k<n. \<exists>f''. read_toc_entry lib st (f\<lparr>fpos := fpos f + k * TOC_ENTRY_SIZE st\<rparr>) =
                         Some (Inr (new ! k, f'')))
     \<and> (0 < n \<longrightarrow> fpos f < length (fdata f))"
proof (induction n arbitrary: f tbl)
  case 0
  then show ?case by simp
next
  case (Suc n)
  from Suc.prems obtain e f2 where
    e: "read_toc_entry lib st f = Some (Inr (e, f2))" and
    rest: "read_toc lib st n f2 (tbl @ [e]) = Some (Inr (tbl', f'))"
    by (auto simp: bindD_Some_Inr)
  from read_toc_entry_file [OF e] have
    d: "fdata f2 = fdata f" and
    p: "fpos f2 = fpos f + min (TOC_ENTRY_SIZE st) (length (fdata f) - fpos f)" and
    lt: "fpos f < length (fdata f)"
    by simp_all
  from Suc.IH [OF rest] obtain new where
    t: "tbl' = (tbl @ [e]) @ new" and l: "length new = n" and
    slots: "\<forall>k<n. \<exists>f''. read_toc_entry lib st (f2\<lparr>fpos := fpos f2 + k * TOC_ENTRY_SIZE st\<rparr>) =
                         Some (Inr (new ! k, f''))" and
    lt2: "0 < n \<longrightarrow> fpos f2 < length (fdata f2)"
    by blast
  have "\<exists>f''. read_toc_entry lib st (f\<lparr>fpos := fpos f + k * TOC_ENTRY_SIZE st\<rparr>) =
                         Some (Inr ((e # new) ! k, f''))" if k: "k < Suc n" for k
  proof (cases k)
    case 0
    with e show ?thesis by simp
  next
    case (Suc j)
    with k have j: "j < n" by simp
    with lt2 d have "fpos f2 < length (fdata f)" by simp
    with p lt have full: "fpos f2 = fpos f + TOC_ENTRY_SIZE st"
      by (simp add: min_def split: if_splits)
    from slots j obtain f'' where
      "read_toc_entry lib st (f2\<lparr>fpos := fpos f2 + j * TOC_ENTRY_SIZE st\<rparr>) = Some (Inr (new ! j, f''))"
      by blast
    moreover have "f2\<lparr>fpos := fpos f2 + j * TOC_ENTRY_SIZE st\<rparr> = f\<lparr>fpos := fpos f + k * TOC_ENTRY_SIZE st\<rparr>"
      using pyfile_pos_eq [OF d] full Suc by (simp add: add.assoc)
    ultimately show ?thesis using Suc by auto
  qed
  with t l lt show ?case by (intro exI [of _ "e # new"]) simp
qed


lemma find_template_Inl: "find_template templates name = Inl x \<Longrightarrow> x = IndexError"
  by (simp add: find_template_def split: list.splits)

lemma read_entry_no_template:
  "find_template templates (template_key (toc_type_string e)) = Inl IndexError \<Longrightarrow>
   read_entry lib st templates e f = Some (Inr (e, f))"
  by (simp add: read_entry_def)

lemma read_entry_shape:
  assumes "read_entry lib st templates e f = Some (Inr (e', f'))"
  shows "\<exists>d. e' = e\<lparr>record_data := d\<rparr>
    \<and> (find_template templates (template_key (toc_type_string e)) = Inl IndexError \<longrightarrow>
         d = record_data e)"
proof (cases "find_template templates (template_key (toc_type_string e))")
  case (Inl x)
  with assms have "e' = e" by (simp add: read_entry_def)
  then show ?thesis by (intro exI [of _ "record_data e"]) simp
next
  case (Inr t)
  with assms obtain d where "e' = e\<lparr>record_data := d\<rparr>"
    by (auto simp: read_entry_def bindD_Some_Inr bindDE_Some_Inr)
  with Inr show ?thesis by auto
qed

lemma read_entries_shape:
  "read_entries lib st templates es f = Some (Inr es') \<Longrightarrow>
   list_all2 (\<lambda>e e'. \<exists>d. e' = e\<lparr>record_data := d\<rparr>
      \<and> (find_template templates (template_key (toc_type_string e)) = Inl IndexError \<longrightarrow>
           d = record_data e)) es es'"
proof (induction es arbitrary: f es')
  case Nil
  then show ?case by simp
next
  case (Cons e es)
  from Cons.prems obtain e1 f1 es1 where
    a: "read_entry lib st templates e f = Some (Inr (e1, f1))" and
    b: "read_entries lib st templates es f1 = Some (Inr es1)" and
    c: "es' = e1 # es1"
    by (auto simp: bindD_Some_Inr)
  from read_entry_shape [OF a] Cons.IH [OF b] c show ?case by simp
qed

text \<open>
  Claim C8. When \<open>readMXEFile\<close> returns a table, its length is the entry count stored in
  the file (no entry for a stored count below zero), entry \<open>k\<close> is the entry decoded at
  the \<open>k\<close>-th stride of the table of contents, and an entry whose type name, up to its
  first colon, matches no template has an empty field list. Such an entry never fails
  the read: step 2 keeps it as it is and reads the entries after it from the same file
  position.
\<close>

theorem readMXEFile_table:
  assumes "readMXEFile lib content templates st = Some (Inr table)"
    and "mxe_toc_start st content = Inr (entry_count, f)"
  shows "length table = nat entry_count
    \<and> (\<forall>k<length table. \<exists>f'.
          read_toc_entry lib st (f\<lparr>fpos := fpos f + k * TOC_ENTRY_SIZE st\<rparr>) =
            Some (Inr ((table ! k)\<lparr>record_data := []\<rparr>, f')))
    \<and> (\<forall>k<length table.
          find_template templates (template_key (toc_type_string (table ! k))) = Inl IndexError \<longrightarrow>
          record_data (table ! k) = [])
    \<and> (\<forall>e es g.
          find_template templates (template_key (toc_type_string e)) = Inl IndexError \<longrightarrow>
          read_entries lib st templates (e # es) g =
            bindD (read_entries lib st templates es g) (\<lambda>es1. Some (Inr (e # es1))))"
proof -
  from assms obtain toc f1 where
    toc: "read_toc lib st (nat entry_count) f [] = Some (Inr (toc, f1))" and
    ents: "read_entries lib st templates toc f1 = Some (Inr table)"
    by (auto simp: readMXEFile_def bindD_Some_Inr bindDE_def)
  from read_toc_shape [OF toc] have
    len: "length toc = nat entry_count" and
    slots: "\<forall>k<nat entry_count. \<exists>f''.
       read_toc_entry lib st (f\<lparr>fpos := fpos f + k * TOC_ENTRY_SIZE st\<rparr>) = Some (Inr (toc ! k, f''))"
    by auto
  let ?R = "\<lambda>e e'. \<exists>d. e' = e\<lparr>record_data := d\<rparr>
      \<and> (find_template templates (template_key (toc_type_string e)) = Inl IndexError \<longrightarrow>
           d = record_data e)"
  from read_entries_shape [OF ents] have rel: "list_all2 ?R toc table" .
  then have len2: "length table = length toc" by (simp add: list_all2_lengthD)
  have entry: "(table ! k)\<lparr>record_data := []\<rparr> = toc ! k \<and>
      (find_template templates (template_key (toc_type_string (table ! k))) = Inl IndexError \<longrightarrow>
          record_data (table ! k) = [])" if k: "k < length table" for k
  proof -
    from slots k len len2 obtain f'' where
      "read_toc_entry lib st (f\<lparr>fpos := fpos f + k * TOC_ENTRY_SIZE st\<rparr>) = Some (Inr (toc ! k, f''))"
      by auto
    from read_toc_entry_file [OF this] have empty: "record_data (toc ! k) = []" by simp
    from k len2 have "k < length toc" by simp
    from list_all2_nthD [OF rel this] have "?R (toc ! k) (table ! k)" .
    then obtain d where d: "table ! k = (toc ! k)\<lparr>record_data := d\<rparr>"
      and nt: "find_template templates (template_key (toc_type_string (toc ! k))) = Inl IndexError \<longrightarrow>
           d = record_data (toc ! k)"
      by blast
    from d empty have 1: "(table ! k)\<lparr>record_data := []\<rparr> = toc ! k" by simp
    from d nt empty have 2: "find_template templates (template_key (toc_type_string (table ! k))) = Inl IndexError \<longrightarrow>
          record_data (table ! k) = []" by simp
    from 1 2 show ?thesis by simp
  qed
  have order: "\<forall>k<length table. \<exists>f'.
          read_toc_entry lib st (f\<lparr>fpos := fpos f + k * TOC_ENTRY_SIZE st\<rparr>) =
            Some (Inr ((table ! k)\<lparr>record_data := []\<rparr>, f'))"
    using slots entry len len2 by simp
  have rec: "\<forall>e es g.
          find_template templates (template_key (toc_type_string e)) = Inl IndexError \<longrightarrow>
          read_entries lib st templates (e # es) g =
            bindD (read_entries lib st templates es g) (\<lambda>es1. Some (Inr (e # es1)))"
    by (simp add: read_entry_no_template bindD_def)
  from len len2 order entry rec show ?thesis by simp
qed

lemma example_read:
  "readMXEFile example_lib example_mxe example_templates MXE_SETTINGS = Some (Inr example_table)"
  by code_simp

lemma example_toc_start:
  "mxe_toc_start MXE_SETTINGS example_mxe = Inr (2, \<lparr>fdata = example_mxe, fpos = 256\<rparr>)"
  by code_simp

theorem readMXEFile_table_witness:
  "readMXEFile example_lib example_mxe example_templates MXE_SETTINGS = Some (Inr example_table)
   \<and> mxe_toc_start MXE_SETTINGS example_mxe = Inr (2, \<lparr>fdata = example_mxe, fpos = 256\<rparr>)
   \<and> length example_table = 2
   \<and> find_template example_templates (template_key (toc_type_string (example_table ! 1))) = Inl IndexError
   \<and> record_data (example_table ! 1) = []
   \<and> (\<exists>f'. read_toc_entry example_lib MXE_SETTINGS \<lparr>fdata = example_mxe, fpos = 288\<rparr> =
          Some (Inr ((example_table ! 1)\<lparr>record_data := []\<rparr>, f')))"
proof -
  note t = readMXEFile_table [OF example_read example_toc_start]
  have l: "length example_table = 2" using t by simp
  have nt: "find_template example_templates (template_key (toc_type_string (example_table ! 1))) = Inl IndexError"
    by (simp add: example_table_def example_templates_def find_template_def template_key_def)
  from t l have "\<exists>f'. read_toc_entry example_lib MXE_SETTINGS
       (\<lparr>fdata = example_mxe, fpos = 256\<rparr>\<lparr>fpos := fpos \<lparr>fdata = example_mxe, fpos = 256\<rparr> + 1 * TOC_ENTRY_SIZE MXE_SETTINGS\<rparr>) =
          Some (Inr ((example_table ! 1)\<lparr>record_data := []\<rparr>, f'))"
    by (metis one_less_numeral_iff semiring_norm(76))
  then have s: "\<exists>f'. read_toc_entry example_lib MXE_SETTINGS \<lparr>fdata = example_mxe, fpos = 288\<rparr> =
          Some (Inr ((example_table ! 1)\<lparr>record_data := []\<rparr>, f'))"
    by (simp add: MXE_SETTINGS_def)
  from t l nt have e: "record_data (example_table ! 1) = []" by simp
  from example_read example_toc_start l nt e s show ?thesis by blast
qed

section \<open>Import and export on the example table\<close>

text \<open>
  Claim C2 asks that a data row whose record id is outside the main table is skipped and
  changes no entry. The program prints that the row will be skipped and then runs the
  loop over the fields with the variable \<open>entry\<close> of the row before: here the row with
  id 99 writes its 7 into entry 0.
\<close>

theorem import_out_of_range_row_changes_previous_entry:
  "applyCSVtoMXE example_lib example_table example_templates
     [(1, [''RecordId'', ''InternalName'', ''<i:n'', ''<p:s'']),
      (2, [''0'', ''A:x'', ''5'', ''hi'']),
      (3, [''99'', ''A:x'', ''7'', ''hi''])]
   = Inr ([PointerSkipped ''0'' 1, NotFound ''99'',
           Changing ''99'' 0 (FBytes [5, 0, 0, 0]) (FBytes [7, 0, 0, 0]),
           PointerSkipped ''99'' 1],
          [\<lparr>toc_field_id = 0, toc_field_type = 7, toc_type_string_addr = 256,
            toc_type_string = ''A:x'', record_address = 264,
            record_data = [FBytes [7, 0, 0, 0], FPair [16, 1, 0, 0] (RStr ''hi'')]\<rparr>,
           \<lparr>toc_field_id = 1, toc_field_type = 7, toc_type_string_addr = 260,
            toc_type_string = ''Z'', record_address = 272, record_data = []\<rparr>])"
  by code_simp

text \<open>When the first data row is the one out of range, \<open>entry\<close> is still unbound.\<close>

theorem import_out_of_range_first_row_raises:
  "applyCSVtoMXE example_lib example_table example_templates
     [(1, [''RecordId'', ''InternalName'', ''<i:n'', ''<p:s'']),
      (2, [''99'', ''A:x'', ''7'', ''hi''])]
   = Inl UnboundLocalError"
  by code_simp

text \<open>
  Claim C5 asks that forced hex output renders every field, resolved pointers included.
  The program hands the stored pair to \<open>bytesAsBEHex\<close>, whose loop raises a \<open>TypeError\<close> on
  the raw address bytes, so the export of a table with a resolved pointer ends there; a
  field that is bytes is rendered.
\<close>

theorem force_hex_pointer_pair_raises:
  "export_template example_lib MXE_SETTINGS (OUTPUT_MODIFIERS\<lparr>FORCE_HEX_OUTPUT := True\<rparr>) []
     example_templates example_table ''A'' = Inl TypeError
   \<and> render_field example_lib MXE_SETTINGS (OUTPUT_MODIFIERS\<lparr>FORCE_HEX_OUTPUT := True\<rparr>) []
       [(''<i'', ''n''), (''<p'', ''s'')] 0 (FBytes [5, 0, 0, 0]) = Inr ''0x05-00-00-00''
   \<and> render_field example_lib MXE_SETTINGS (OUTPUT_MODIFIERS\<lparr>FORCE_HEX_OUTPUT := True\<rparr>) []
       [(''<i'', ''n''), (''<p'', ''s'')] 1 (FPair [16, 1, 0, 0] (RStr ''hi'')) = Inl TypeError"
  by code_simp

text \<open>With forced hex output the data type of the field plays no part.\<close>

lemma force_hex_render:
  "FORCE_HEX_OUTPUT om \<Longrightarrow>
   render_field lib st om xlb_list tfields i data =
     (case data of FBytes b \<Rightarrow> Inr (bytesAsBEHex b) | FPair raw v \<Rightarrow> Inl TypeError | FNone \<Rightarrow> Inl TypeError)"
  by (simp add: render_field_def hex_of_field_def)

section \<open>Writing back: stored shapes, imports and the file length\<close>

subsection \<open>Writing record data shaped after its template\<close>

lemma length_f_write_ge: "length (fdata f) \<le> length (fdata (f_write bs f))"
  by (auto simp: f_write_def min_def)

lemma f_write_inside:
  "fpos f + length bs \<le> length (fdata f) \<Longrightarrow>
   length (fdata (f_write bs f)) = length (fdata f) \<and> fpos (f_write bs f) = fpos f + length bs"
  by (simp add: f_write_def)

lemma field_bytes_to_write_resolves:
  "field_bytes_to_write st dt data i =
     (case DataTypes dt of
        None \<Rightarrow> Inr None
      | Some w \<Rightarrow>
          bindE (nth_err data i) (\<lambda>x.
          bindE (if resolves st dt then bytearray_of_first x else bytearray_of x)
            (\<lambda>bs. Inr (Some bs))))"
  by (auto simp: field_bytes_to_write_def resolves_def split: option.splits)

lemma field_bytes_shaped:
  assumes "field_shaped st (dt, name) x" and "i < length data" and "data ! i = x"
  shows "field_bytes_to_write st dt data i = Inr (Some (stored_bytes x))"
proof -
  from assms(1) obtain w where w: "DataTypes dt = Some w"
    by (auto simp: field_shaped_def)
  from assms(1) have "(if resolves st dt then bytearray_of_first x else bytearray_of x)
      = Inr (stored_bytes x)"
    by (cases x) (simp_all add: field_shaped_def bytearray_of_def bytearray_of_first_def
        stored_bytes_def)
  with assms(2,3) w show ?thesis
    by (simp add: field_bytes_to_write_resolves nth_err_def)
qed

lemma drop_eq_ConsD:
  "drop i data = x # xs \<Longrightarrow> i < length data \<and> data ! i = x \<and> drop (Suc i) data = xs"
  by (metis Cons_nth_drop_Suc drop_all list.discI list.inject not_le_imp_less)

lemma write_fields_shaped:
  "list_all2 (field_shaped st) tfields xs \<Longrightarrow> drop i data = xs \<Longrightarrow>
   write_fields st n tfields data i ws =
     (None, \<lparr>wfile = foldl (\<lambda>f x. f_write (stored_bytes x) f) (wfile ws) xs,
             wlog = wlog ws @ map (\<lambda>j. (n, j, stored_bytes (data ! j))) [i..<i + length xs]\<rparr>)"
proof (induction tfields xs arbitrary: i ws rule: list_all2_induct)
  case Nil
  then show ?case by simp
next
  case (Cons tf tfs x xs)
  obtain dt name where tf: "tf = (dt, name)" by (cases tf)
  from drop_eq_ConsD [OF Cons.prems] have i: "i < length data" and x: "data ! i = x"
    and d: "drop (Suc i) data = xs" by simp_all
  from Cons.hyps(1) tf have fb: "field_bytes_to_write st dt data i = Inr (Some (stored_bytes x))"
    using field_bytes_shaped [OF _ i x] by simp
  have r: "[i..<i + length (x # xs)] = i # [Suc i..<Suc i + length xs]"
    by (simp add: upt_rec)
  show ?case
    unfolding r using Cons.IH [OF d, of "do_write n i (stored_bytes x) ws"]
    by (simp add: tf fb do_write_def x)
qed

subsection \<open>What an import can change\<close>

lemma bindE_eq_Inr': "bindE m g = Inr r \<Longrightarrow> \<exists>v. m = Inr v \<and> g v = Inr r"
  by (cases m) simp_all



lemma upd_ok_refl [simp]: "upd_ok tf d d"
  by (simp add: upd_ok_def)


lemma import_changes_refl [simp]: "import_changes tf table table"
proof -
  have "\<exists>d. e = e\<lparr>record_data := d\<rparr> \<and> upd_ok tf (record_data e) d" for e :: toc_entry
    by (rule exI [of _ "record_data e"]) simp
  then show ?thesis
    unfolding import_changes_def by (simp add: list_all2_same)
qed












lemma write_entry_shaped:
  assumes "find_template templates (template_key (toc_type_string e)) = Inr t"
    and "shaped st (snd t) (record_data e)"
    and "0 \<le> followAddress (record_address e)"
  shows "write_entry st templates n e ws =
     (None, \<lparr>wfile = foldl (\<lambda>f x. f_write (stored_bytes x) f)
                       ((wfile ws)\<lparr>fpos := nat (followAddress (record_address e))\<rparr>)
                       (record_data e),
             wlog = wlog ws @ map (\<lambda>j. (n, j, stored_bytes (record_data e ! j)))
                                [0..<length (record_data e)]\<rparr>)"
proof -
  from assms(2) have "list_all2 (field_shaped st) (snd t) (record_data e)"
    by (simp add: shaped_def)
  from write_fields_shaped [OF this, of 0 "record_data e" n
      "ws\<lparr>wfile := (wfile ws)\<lparr>fpos := nat (followAddress (record_address e))\<rparr>\<rparr>"]
  show ?thesis using assms(1,3) by (simp add: write_entry_def f_seek_def)
qed


subsection \<open>The table that was read\<close>

lemma take_drop_back:
  "take p d @ take w (drop p d) @ drop (p + length (take w (drop p d))) d = d"
proof -
  have a: "drop (p + length (take w (drop p d))) d = drop w (drop p d)"
    by (cases "w \<le> length d - p") (simp_all add: min_def add.commute)
  have "take w (drop p d) @ drop w (drop p d) = drop p d" by (rule append_take_drop_id)
  then have "take p d @ take w (drop p d) @ drop w (drop p d) = take p d @ drop p d" by simp
  also have "\<dots> = d" by (rule append_take_drop_id)
  finally show ?thesis unfolding a .
qed

lemma f_read_eq:
  "f_read (int w) f = (take w (drop (fpos f) (fdata f)),
                        f\<lparr>fpos := fpos f + length (take w (drop (fpos f) (fdata f)))\<rparr>)"
  by (simp add: f_read_def Let_def)

lemma bytesAs_Int_len:
  "(if c then bytesAsLEInt raw else bytesAsBEInt raw) = Inr v \<Longrightarrow> 4 \<le> length raw"
  by (auto simp: bytesAsLEInt_def bytesAsBEInt_def split: if_splits dest: unpack_from_i_Inr)

lemma read_field_legal:
  assumes "read_field lib st dt f = Some (Inr (vs, f'))" and "DataTypes dt = Some w"
  shows "\<exists>x. vs = [x] \<and> field_shaped st (dt, name) x
     \<and> stored_bytes x = take w (drop (fpos f) (fdata f))
     \<and> f' = f\<lparr>fpos := fpos f + length (stored_bytes x)\<rparr>"
proof -
  define raw where "raw = take w (drop (fpos f) (fdata f))"
  define f1 where "f1 = f\<lparr>fpos := fpos f + length raw\<rparr>"
  have rd: "f_read (int w) f = (raw, f1)" by (simp add: f_read_eq raw_def f1_def)
  have samef: "f2 = f1" if "0 < f_tell f1 \<longrightarrow> fdata f2 = fdata f1 \<and> fpos f2 = nat (f_tell f1)"
    and "4 \<le> length raw" for f2
    using that by (cases f, cases f2) (simp add: f1_def f_tell_def)
  show ?thesis
  proof (cases "(dt = ''<p'' \<or> dt = ''>p'') \<and> RESOLVE_CLASSIC_POINTERS st")
    case True
    with assms rd obtain int_addr where
      ia: "(if dt = ''<p'' then bytesAsLEInt raw else bytesAsBEInt raw) = Inr int_addr" and
      r2: "bindD (readStr lib f1 (followAddress int_addr) (f_tell f1)) (\<lambda>(val, f2).
             Some (Inr ([FPair raw (RStr val)], f2))) = Some (Inr (vs, f'))"
      by (auto simp: read_field_def bindDE_Some_Inr)
    from r2 obtain val f2 where
      rs: "readStr lib f1 (followAddress int_addr) (f_tell f1) = Some (Inr (val, f2))" and
      res: "vs = [FPair raw (RStr val)]" "f' = f2"
      by (auto simp: bindD_Some_Inr)
    from readStr_file [OF rs] bytesAs_Int_len [OF ia] have "f2 = f1" by (intro samef) simp_all
    with res True assms(2) show ?thesis
      by (simp add: field_shaped_def resolves_def stored_bytes_def raw_def f1_def)
  next
    case nc: False
    show ?thesis
    proof (cases "(dt = ''<pi'' \<or> dt = ''>pi'') \<and> RESOLVE_XLB_POINTERS st")
      case True
      with nc assms rd obtain int_addr where
        ia: "(if dt = ''<pi'' then bytesAsLEInt raw else bytesAsBEInt raw) = Inr int_addr" and
        r2: "bindD (readZeroDelBytes f1 (followAddress int_addr) (f_tell f1)) (\<lambda>(val, f2).
             Some (Inr ([FPair raw (RBytes val)], f2))) = Some (Inr (vs, f'))"
        by (auto simp: read_field_def bindDE_Some_Inr)
      from r2 obtain val f2 where
        rs: "readZeroDelBytes f1 (followAddress int_addr) (f_tell f1) = Some (Inr (val, f2))" and
        res: "vs = [FPair raw (RBytes val)]" "f' = f2"
        by (auto simp: bindD_Some_Inr)
      from readZeroDelBytes_file [OF rs] bytesAs_Int_len [OF ia] have "f2 = f1"
        by (intro samef) simp_all
      with res True assms(2) show ?thesis
        by (simp add: field_shaped_def resolves_def stored_bytes_def raw_def f1_def)
    next
      case False
      with nc assms rd have "vs = [FBytes raw]" "f' = f1"
        by (auto simp: read_field_def)
      with nc False assms(2) show ?thesis
        by (simp add: field_shaped_def resolves_def stored_bytes_def raw_def f1_def)
    qed
  qed
qed

lemma read_fields_legal:
  "read_fields lib st ts f acc = Some (Inr (data, f')) \<Longrightarrow> legal ts \<Longrightarrow>
   \<exists>new. data = acc @ new \<and> list_all2 (field_shaped st) ts new
     \<and> foldl (\<lambda>g x. f_write (stored_bytes x) g) f new = f'"
proof (induction ts arbitrary: f acc)
  case Nil
  then show ?case by simp
next
  case (Cons tf ts)
  obtain dt name where tf: "tf = (dt, name)" by (cases tf)
  from Cons.prems(2) tf obtain w where w: "DataTypes dt = Some w" and lg: "legal ts"
    by (auto simp: legal_def)
  from Cons.prems(1) tf obtain vs f1 where
    a: "read_field lib st dt f = Some (Inr (vs, f1))" and
    b: "read_fields lib st ts f1 (acc @ vs) = Some (Inr (data, f'))"
    by (auto simp: bindD_Some_Inr)
  from read_field_legal [OF a w, of name] obtain x where
    vs: "vs = [x]" and sh: "field_shaped st (dt, name) x" and
    sb: "stored_bytes x = take w (drop (fpos f) (fdata f))" and
    f1: "f1 = f\<lparr>fpos := fpos f + length (stored_bytes x)\<rparr>"
    by blast
  have wb: "f_write (stored_bytes x) f = f1"
  proof (cases "stored_bytes x = []")
    case True
    with f1 show ?thesis by (simp add: f_write_def)
  next
    case False
    with sb have lt: "fpos f < length (fdata f)" by (cases "fpos f < length (fdata f)") auto
    note tb = take_drop_back [of "fpos f" "fdata f" w]
    with False lt sb f1 show ?thesis by (cases f) (simp add: f_write_def)
  qed
  from Cons.IH [OF b lg] obtain new where
    d: "data = (acc @ vs) @ new" and all: "list_all2 (field_shaped st) ts new" and
    fl: "foldl (\<lambda>g x. f_write (stored_bytes x) g) f1 new = f'"
    by blast
  from d vs all sh tf wb fl show ?case
    by (intro exI [of _ "x # new"]) simp
qed

lemma read_fields_positions:
  "read_fields lib st ts f acc = Some (Inr (data, f')) \<Longrightarrow> legal ts \<Longrightarrow>
   \<exists>new. data = acc @ new \<and> fdata f' = fdata f
     \<and> fpos f' = fpos f + sum_list (map (\<lambda>x. length (stored_bytes x)) new)
     \<and> (sum_list (map (\<lambda>x. length (stored_bytes x)) new) = 0 \<or> fpos f' \<le> length (fdata f))"
proof (induction ts arbitrary: f acc)
  case Nil
  then show ?case by simp
next
  case (Cons tf ts)
  obtain dt name where tf: "tf = (dt, name)" by (cases tf)
  from Cons.prems(2) tf obtain w where w: "DataTypes dt = Some w" and lg: "legal ts"
    by (auto simp: legal_def)
  from Cons.prems(1) tf obtain vs f1 where
    a: "read_field lib st dt f = Some (Inr (vs, f1))" and
    b: "read_fields lib st ts f1 (acc @ vs) = Some (Inr (data, f'))"
    by (auto simp: bindD_Some_Inr)
  from read_field_legal [OF a w, of name] obtain x where
    vs: "vs = [x]" and
    sb: "stored_bytes x = take w (drop (fpos f) (fdata f))" and
    f1: "f1 = f\<lparr>fpos := fpos f + length (stored_bytes x)\<rparr>"
    by blast
  from sb have inside: "stored_bytes x = [] \<or> fpos f + length (stored_bytes x) \<le> length (fdata f)"
    by (cases "fpos f < length (fdata f)") auto
  from Cons.IH [OF b lg] obtain new where
    d: "data = (acc @ vs) @ new" and fd: "fdata f' = fdata f1" and
    ps: "fpos f' = fpos f1 + sum_list (map (\<lambda>x. length (stored_bytes x)) new)" and
    ins: "sum_list (map (\<lambda>x. length (stored_bytes x)) new) = 0 \<or> fpos f' \<le> length (fdata f1)"
    by blast
  have 1: "data = acc @ (x # new)" using d vs by simp
  have 2: "fdata f' = fdata f" using fd f1 by simp
  have 3: "fpos f' = fpos f + sum_list (map (\<lambda>x. length (stored_bytes x)) (x # new))"
    using ps f1 by simp
  define S where "S = sum_list (map (\<lambda>x. length (stored_bytes x)) new)"
  define L where "L = length (stored_bytes x)"
  have "L + S = 0 \<or> fpos f' \<le> length (fdata f)"
    using ins inside ps f1 unfolding S_def [symmetric] L_def [symmetric]
    by (cases "S = 0") (auto simp: L_def)
  then have 4: "sum_list (map (\<lambda>x. length (stored_bytes x)) (x # new)) = 0 \<or> fpos f' \<le> length (fdata f)"
    by (simp add: S_def L_def)
  from 1 2 3 4 show ?case by blast
qed

lemma read_entry_legal:
  assumes "read_entry lib st templates e f = Some (Inr (e', f'))"
    and "find_template templates (template_key (toc_type_string e)) = Inr t"
    and "legal (snd t)" and "record_data e = []"
  shows "\<exists>d. e' = e\<lparr>record_data := d\<rparr> \<and> shaped st (snd t) d
    \<and> 0 \<le> followAddress (record_address e)
    \<and> (sum_list (map (\<lambda>x. length (stored_bytes x)) d) = 0
        \<or> nat (followAddress (record_address e)) + sum_list (map (\<lambda>x. length (stored_bytes x)) d)
           \<le> length (fdata f))"
proof -
  from assms(1,2,4) obtain f1 d f2 where
    sk: "f_seek (followAddress (record_address e)) f = Inr f1" and
    rf: "read_fields lib st (snd t) f1 [] = Some (Inr (d, f2))" and
    e': "e' = e\<lparr>record_data := d\<rparr>"
    by (auto simp: read_entry_def bindD_Some_Inr bindDE_Some_Inr)
  from f_seek_Inr [OF sk] have f1: "fdata f1 = fdata f"
    "fpos f1 = nat (followAddress (record_address e))" "0 \<le> followAddress (record_address e)"
    by simp_all
  from read_fields_legal [OF rf assms(3)] have sh: "shaped st (snd t) d"
    by (auto simp: shaped_def)
  from read_fields_positions [OF rf assms(3)] f1 have
    "sum_list (map (\<lambda>x. length (stored_bytes x)) d) = 0
        \<or> nat (followAddress (record_address e)) + sum_list (map (\<lambda>x. length (stored_bytes x)) d)
           \<le> length (fdata f)"
    by auto
  with e' sh f1(3) show ?thesis by blast
qed

lemma read_entry_fdata:
  assumes "read_entry lib st templates e f = Some (Inr (e', f'))"
    and "\<forall>t. find_template templates (template_key (toc_type_string e)) = Inr t \<longrightarrow> legal (snd t)"
  shows "fdata f' = fdata f"
proof (cases "find_template templates (template_key (toc_type_string e))")
  case (Inl x)
  with assms(1) show ?thesis by (simp add: read_entry_def)
next
  case (Inr t)
  with assms(1) obtain f1 d where
    sk: "f_seek (followAddress (record_address e)) f = Inr f1" and
    rf: "read_fields lib st (snd t) f1 (record_data e) = Some (Inr (d, f'))"
    by (auto simp: read_entry_def bindD_Some_Inr bindDE_Some_Inr)
  from assms(2) Inr have "legal (snd t)" by simp
  from read_fields_positions [OF rf this] f_seek_Inr [OF sk] show ?thesis by auto
qed

lemma read_entries_fit:
  "read_entries lib st templates es f = Some (Inr es') \<Longrightarrow>
   list_all (\<lambda>t. legal (snd t)) templates \<Longrightarrow>
   list_all (\<lambda>e. record_data e = []) es \<Longrightarrow>
   list_all (fits (fdata f) st templates) es'"
proof (induction es arbitrary: f es')
  case Nil
  then show ?case by simp
next
  case (Cons e es)
  from Cons.prems(1) obtain e1 f1 es1 where
    a: "read_entry lib st templates e f = Some (Inr (e1, f1))" and
    b: "read_entries lib st templates es f1 = Some (Inr es1)" and
    c: "es' = e1 # es1"
    by (auto simp: bindD_Some_Inr)
  have lg: "legal (snd t)" if "find_template templates name = Inr t" for name t
  proof -
    from that obtain more where "filter (\<lambda>s. fst s = name) templates = t # more"
      by (auto simp: find_template_def split: list.splits)
    then have "t \<in> set (filter (\<lambda>s. fst s = name) templates)" by simp
    then have "t \<in> set templates" by simp
    with Cons.prems(2) show ?thesis by (simp add: list_all_iff)
  qed
  from read_entry_fdata [OF a] lg have fd: "fdata f1 = fdata f" by blast
  have "fits (fdata f) st templates e1"
  proof (cases "find_template templates (template_key (toc_type_string e))")
    case (Inl x)
    with a have "e1 = e" by (simp add: read_entry_def)
    with Inl show ?thesis by (simp add: fits_def)
  next
    case (Inr t)
    from Cons.prems(3) have "record_data e = []" by simp
    from read_entry_legal [OF a Inr lg [OF Inr] this] Inr show ?thesis
      by (auto simp: fits_def)
  qed
  moreover from Cons.IH [OF b Cons.prems(2)] Cons.prems(3) fd
  have "list_all (fits (fdata f) st templates) es1" by simp
  ultimately show ?case using c by simp
qed

lemma read_toc_empty:
  "read_toc lib st n f tbl = Some (Inr (tbl', f')) \<Longrightarrow>
   list_all (\<lambda>e. record_data e = []) tbl \<Longrightarrow>
   list_all (\<lambda>e. record_data e = []) tbl' \<and> fdata f' = fdata f"
proof (induction n arbitrary: f tbl)
  case 0
  then show ?case by simp
next
  case (Suc n)
  from Suc.prems(1) obtain e f2 where
    e: "read_toc_entry lib st f = Some (Inr (e, f2))" and
    rest: "read_toc lib st n f2 (tbl @ [e]) = Some (Inr (tbl', f'))"
    by (auto simp: bindD_Some_Inr)
  from read_toc_entry_file [OF e] Suc.prems(2)
  have "list_all (\<lambda>e. record_data e = []) (tbl @ [e])" and fd: "fdata f2 = fdata f" by simp_all
  from Suc.IH [OF rest this(1)] fd show ?case by simp
qed

lemma mxe_toc_start_fdata:
  "mxe_toc_start st content = Inr (n, f) \<Longrightarrow> fdata f = content"
  by (auto simp: mxe_toc_start_def Let_def split_def f_seek_def f_read_def
      dest!: bindE_eq_Inr' split: if_splits)

lemma loaded_fits:
  assumes "readMXEFile lib content templates st = Some (Inr table)"
    and "list_all (\<lambda>t. legal (snd t)) templates"
  shows "list_all (fits content st templates) table"
proof -
  from assms(1) obtain n f toc f1 where
    st: "mxe_toc_start st content = Inr (n, f)" and
    toc: "read_toc lib st (nat n) f [] = Some (Inr (toc, f1))" and
    ents: "read_entries lib st templates toc f1 = Some (Inr table)"
    by (auto simp: readMXEFile_def bindD_Some_Inr bindDE_Some_Inr)
  from read_toc_empty [OF toc] have e: "list_all (\<lambda>e. record_data e = []) toc"
    and fd: "fdata f1 = fdata f" by simp_all
  from read_entries_fit [OF ents assms(2) e] fd mxe_toc_start_fdata [OF st]
  show ?thesis by simp
qed

subsection \<open>Pointer fields and the file length\<close>




lemma write_fields_ge:
  "length (fdata (wfile ws)) \<le> length (fdata (wfile (snd (write_fields st n ts data i ws))))"
proof (induction ts arbitrary: i ws)
  case Nil
  then show ?case by simp
next
  case (Cons tf ts)
  obtain dt name where tf: "tf = (dt, name)" by (cases tf)
  show ?case
  proof (cases "field_bytes_to_write st dt data i")
    case (Inl e)
    with tf show ?thesis by simp
  next
    case (Inr r)
    show ?thesis
    proof (cases r)
      case None
      with Inr tf Cons.IH [of ws "i + 1"] show ?thesis by simp
    next
      case (Some bs)
      have "length (fdata (wfile ws)) \<le> length (fdata (wfile (do_write n i bs ws)))"
        by (simp add: do_write_def length_f_write_ge)
      also have "\<dots> \<le> length (fdata (wfile (snd (write_fields st n ts data (i + 1) (do_write n i bs ws)))))"
        by (rule Cons.IH)
      finally show ?thesis using Inr Some tf by simp
    qed
  qed
qed

lemma write_entry_ge:
  "length (fdata (wfile ws)) \<le> length (fdata (wfile (snd (write_entry st templates n e ws))))"
proof (cases "find_template templates (template_key (toc_type_string e))")
  case (Inl x)
  then show ?thesis by (simp add: write_entry_def)
next
  case (Inr t)
  show ?thesis
  proof (cases "f_seek (followAddress (record_address e)) (wfile ws)")
    case (Inl x)
    with Inr show ?thesis by (simp add: write_entry_def)
  next
    case sk: (Inr f1)
    let ?r = "write_fields st n (snd t) (record_data e) 0 (ws\<lparr>wfile := f1\<rparr>)"
    from f_seek_Inr [OF sk] have "fdata f1 = fdata (wfile ws)" by simp
    with write_fields_ge [of "ws\<lparr>wfile := f1\<rparr>" st n "snd t" "record_data e" 0]
    have ge: "length (fdata (wfile ws)) \<le> length (fdata (wfile (snd ?r)))" by simp
    have "snd (write_entry st templates n e ws) = snd ?r"
      using Inr sk by (cases ?r) (auto simp: write_entry_def split: option.splits)
    with ge show ?thesis by simp
  qed
qed

lemma write_entries_ge:
  "length (fdata (wfile ws)) \<le> length (fdata (wfile (snd (write_entries st templates n es ws))))"
proof (induction es arbitrary: n ws)
  case Nil
  then show ?case by simp
next
  case (Cons e es)
  obtain err ws1 where r: "write_entry st templates n e ws = (err, ws1)"
    by (cases "write_entry st templates n e ws")
  from write_entry_ge [of ws st templates n e] r
  have 1: "length (fdata (wfile ws)) \<le> length (fdata (wfile ws1))" by simp
  show ?case
  proof (cases err)
    case None
    with r 1 Cons.IH [of ws1 "n + 1"] show ?thesis by simp
  next
    case (Some x)
    with r 1 show ?thesis by simp
  qed
qed

lemma foldl_writes_inside:
  "sum_list (map (\<lambda>x. length (stored_bytes x)) xs) = 0
     \<or> fpos f + sum_list (map (\<lambda>x. length (stored_bytes x)) xs) \<le> length (fdata f) \<Longrightarrow>
   length (fdata (foldl (\<lambda>g x. f_write (stored_bytes x) g) f xs)) = length (fdata f)"
proof (induction xs arbitrary: f)
  case Nil
  then show ?case by simp
next
  case (Cons x xs)
  show ?case
  proof (cases "stored_bytes x = []")
    case True
    then have "f_write (stored_bytes x) f = f" by (simp add: f_write_def)
    with Cons True show ?thesis by simp
  next
    case False
    with Cons.prems have le: "fpos f + length (stored_bytes x)
        + sum_list (map (\<lambda>x. length (stored_bytes x)) xs) \<le> length (fdata f)"
      by simp
    then have "fpos f + length (stored_bytes x) \<le> length (fdata f)" by simp
    from f_write_inside [OF this] le have
      l: "length (fdata (f_write (stored_bytes x) f)) = length (fdata f)" and
      "fpos (f_write (stored_bytes x) f) + sum_list (map (\<lambda>x. length (stored_bytes x)) xs)
         \<le> length (fdata (f_write (stored_bytes x) f))"
      by simp_all
    from Cons.IH [OF disjI2, OF this(2)] l show ?thesis by simp
  qed
qed

lemma write_entry_fits:
  assumes "fits content st templates e" and "length (fdata (wfile ws)) = length content"
  shows "\<exists>ws'. write_entry st templates n e ws = (None, ws')
    \<and> length (fdata (wfile ws')) = length content"
proof (cases "find_template templates (template_key (toc_type_string e))")
  case (Inl x)
  with assms(2) show ?thesis by (simp add: write_entry_def)
next
  case (Inr t)
  with assms(1) have sh: "shaped st (snd t) (record_data e)"
    and ad: "0 \<le> followAddress (record_address e)"
    and ins: "sum_list (map (\<lambda>x. length (stored_bytes x)) (record_data e)) = 0
               \<or> nat (followAddress (record_address e))
                    + sum_list (map (\<lambda>x. length (stored_bytes x)) (record_data e))
                  \<le> length content"
    by (simp_all add: fits_def)
  let ?f = "(wfile ws)\<lparr>fpos := nat (followAddress (record_address e))\<rparr>"
  from ins assms(2) have "sum_list (map (\<lambda>x. length (stored_bytes x)) (record_data e)) = 0
     \<or> fpos ?f + sum_list (map (\<lambda>x. length (stored_bytes x)) (record_data e)) \<le> length (fdata ?f)"
    by simp
  from foldl_writes_inside [OF this] assms(2)
  have "length (fdata (foldl (\<lambda>g x. f_write (stored_bytes x) g) ?f (record_data e))) = length content"
    by simp
  with write_entry_shaped [OF Inr sh ad, of n ws] show ?thesis by simp
qed

lemma write_entries_fits:
  "list_all (fits content st templates) es \<Longrightarrow> length (fdata (wfile ws)) = length content \<Longrightarrow>
   \<exists>ws'. write_entries st templates n es ws = (None, ws')
     \<and> length (fdata (wfile ws')) = length content"
proof (induction es arbitrary: n ws)
  case Nil
  then show ?case by simp
next
  case (Cons e es)
  from Cons.prems(1) have e: "fits content st templates e"
    and es: "list_all (fits content st templates) es" by simp_all
  from write_entry_fits [OF e Cons.prems(2), of n] obtain ws1 where
    a: "write_entry st templates n e ws = (None, ws1)" and
    l: "length (fdata (wfile ws1)) = length content" by blast
  from Cons.IH [OF es l, of "n + 1"] a show ?case by simp
qed

text \<open>
  Claim C9, as amended. \<open>writeMXEFile\<close> never makes the file shorter. It leaves the
  length as it is, and raises nothing, when every entry fits the file: an entry with a
  template has its record data shaped after the template and its stored bytes end
  inside the file. The table \<open>readMXEFile\<close> returned for the same file fits it when all
  templates have data types of \<open>DataTypes\<close> only.
\<close>

theorem write_keeps_length:
  "length content \<le> length (fst (snd (writeMXEFile content table templates st)))
   \<and> (list_all (fits content st templates) table \<longrightarrow>
        fst (writeMXEFile content table templates st) = None
        \<and> length (fst (snd (writeMXEFile content table templates st))) = length content)
   \<and> (readMXEFile lib content templates st = Some (Inr table)
        \<and> list_all (\<lambda>t. legal (snd t)) templates \<longrightarrow>
        list_all (fits content st templates) table)"
proof -
  let ?ws = "\<lparr>wfile = \<lparr>fdata = content, fpos = 0\<rparr>, wlog = []\<rparr>"
  have w: "writeMXEFile content table templates st =
      (fst (write_entries st templates 0 table ?ws),
       fdata (wfile (snd (write_entries st templates 0 table ?ws))),
       wlog (snd (write_entries st templates 0 table ?ws)))"
    by (simp add: writeMXEFile_def split_def)
  have 1: "length content \<le> length (fst (snd (writeMXEFile content table templates st)))"
    using write_entries_ge [of ?ws st templates 0 table] by (simp add: w)
  have 2: "fst (writeMXEFile content table templates st) = None
        \<and> length (fst (snd (writeMXEFile content table templates st))) = length content"
    if "list_all (fits content st templates) table"
  proof -
    from write_entries_fits [OF that, of ?ws 0] obtain ws' where
      "write_entries st templates 0 table ?ws = (None, ws')"
      "length (fdata (wfile ws')) = length content" by auto
    then show ?thesis by (simp add: w)
  qed
  from 1 2 loaded_fits show ?thesis by blast
qed


lemma example_import_C:
  "applyCSVtoMXE example_lib example_table example_templates example_csv_C =
     Inr ([Changing ''0'' 1 (FPair [16, 1, 0, 0] (RStr ''hi'')) (FBytes [9, 0, 0, 0])],
          example_table_C)"
  by code_simp



theorem write_keeps_length_witness:
  "length example_mxe \<le> length (fst (snd (writeMXEFile example_mxe example_table example_templates MXE_SETTINGS)))
   \<and> list_all (fits example_mxe MXE_SETTINGS example_templates) example_table
   \<and> fst (writeMXEFile example_mxe example_table example_templates MXE_SETTINGS) = None
   \<and> length (fst (snd (writeMXEFile example_mxe example_table example_templates MXE_SETTINGS))) = length example_mxe
   \<and> readMXEFile example_lib example_mxe example_templates MXE_SETTINGS = Some (Inr example_table)
   \<and> list_all (\<lambda>t. legal (snd t)) example_templates"
proof -
  have l: "list_all (\<lambda>t. legal (snd t)) example_templates" by code_simp
  from write_keeps_length [of example_mxe example_table example_templates MXE_SETTINGS example_lib]
    example_read l
  show ?thesis by blast
qed

text \<open>The same import makes the write run past the end of the file of 339 bytes.\<close>

theorem import_then_write_lengthens_counterexample:
  "applyCSVtoMXE example_lib example_table example_templates example_csv_C =
       Inr ([Changing ''0'' 1 (FPair [16, 1, 0, 0] (RStr ''hi'')) (FBytes [9, 0, 0, 0])],
            example_table_C)
   \<and> length example_mxe = 339
   \<and> length (fst (snd (writeMXEFile example_mxe example_table_C example_templates MXE_SETTINGS))) = 341"
proof -
  have "length example_mxe = 339" by code_simp
  moreover have "length (fst (snd (writeMXEFile example_mxe example_table_C example_templates MXE_SETTINGS))) = 341"
    by code_simp
  ultimately show ?thesis using example_import_C by blast
qed


end
